theory Spec2Isabelle
  imports Main "HOL-Library.Char_ord" "HOL-Library.List_Lexorder" "HOL-Library.Multiset"
begin

section \<open>Paginated listing queues\<close>

text \<open>
  The reconcilers read their two sides through queue objects (\<open>S3ListObjectsV2Queue\<close>,
  \<open>DynamoDbSearchQueue\<close>, \<open>CMRSearchConceptQueue\<close>, \<open>ESCollectionGranuleQueue\<close>) whose
  only operations used are \<open>peek\<close> and \<open>shift\<close>.

  Modelled from the spec: the queue classes themselves. A queue holds the page buffered
  at the moment (\<open>items\<close>) and the pages the listing source has still to deliver
  (\<open>pages\<close>). When the buffer is empty and the source has more pages, the next page is
  fetched; when the source is exhausted, \<open>peek\<close> and \<open>shift\<close> return the empty
  sentinel (\<open>None\<close>) from then on. A page already consumed is never fetched again.
\<close>

datatype 'a queue = Queue (items: "'a list") (pages: "'a list list")

fun fetchItems :: "'a queue \<Rightarrow> 'a queue" where
  "fetchItems (Queue [] (p # ps)) = fetchItems (Queue p ps)"
| "fetchItems q = q"

definition peek :: "'a queue \<Rightarrow> 'a option \<times> 'a queue" where
  "peek q = (case fetchItems q of
               Queue [] ps \<Rightarrow> (None, Queue [] ps)
             | Queue (x # xs) ps \<Rightarrow> (Some x, Queue (x # xs) ps))"

definition shift :: "'a queue \<Rightarrow> 'a option \<times> 'a queue" where
  "shift q = (case fetchItems q of
                Queue [] ps \<Rightarrow> (None, Queue [] ps)
              | Queue (x # xs) ps \<Rightarrow> (Some x, Queue xs ps))"

text \<open>Everything a queue will still yield, in order.\<close>

fun remaining :: "'a queue \<Rightarrow> 'a list" where
  "remaining (Queue xs ps) = xs @ concat ps"

lemma remaining_fetchItems: "remaining (fetchItems q) = remaining q"
  by (induction q rule: fetchItems.induct) simp_all

lemma peek_remaining: "remaining (snd (peek q)) = remaining q"
proof (cases "fetchItems q")
  case (Queue xs ps)
  with remaining_fetchItems [of q, symmetric] show ?thesis
    by (cases xs) (simp_all add: peek_def)
qed

lemma fetchItems_empty: "fetchItems q = Queue [] ps \<Longrightarrow> ps = []"
  by (induction q rule: fetchItems.induct) simp_all

lemma peek_value: "fst (peek q) = (case remaining q of [] \<Rightarrow> None | x # _ \<Rightarrow> Some x)"
proof (cases "fetchItems q")
  case (Queue xs ps)
  with remaining_fetchItems [of q, symmetric] fetchItems_empty [of q ps] show ?thesis
    by (cases xs) (auto simp: peek_def)
qed

lemma shift_value: "fst (shift q) = fst (peek q)"
  by (simp add: peek_def shift_def split: queue.splits list.splits)

lemma shift_remaining: "remaining (snd (shift q)) = tl (remaining q)"
proof (cases "fetchItems q")
  case (Queue xs ps)
  with remaining_fetchItems [of q, symmetric] fetchItems_empty [of q ps] show ?thesis
    by (cases xs) (auto simp: shift_def)
qed

lemma fetchItems_idem: "fetchItems (fetchItems q) = fetchItems q"
  by (induction q rule: fetchItems.induct) simp_all

lemma shift_after_peek: "shift (snd (peek q)) = shift q"
proof (cases "fetchItems q")
  case (Queue xs ps)
  with fetchItems_idem [of q] show ?thesis
    by (cases xs) (simp_all add: peek_def shift_def)
qed

lemma peek_after_peek: "peek (snd (peek q)) = peek q"
proof (cases "fetchItems q")
  case (Queue xs ps)
  with fetchItems_idem [of q] show ?thesis
    by (cases xs) (simp_all add: peek_def)
qed

lemma shift_shorter:
  "fst (peek q) = Some x \<Longrightarrow> length (remaining (snd (shift q))) < length (remaining q)"
  by (cases "remaining q") (simp_all add: peek_value shift_remaining)

lemma shift_pair_shorter:
  "fst (peek q) = Some x \<Longrightarrow> (v, q') = shift q \<Longrightarrow> length (remaining q') < length (remaining q)"
  using shift_shorter [of q x] by (cases "shift q") simp

section \<open>Storage listing against file inventory, one bucket\<close>

text \<open>
  \<open>createReconciliationReportForBucket\<close> reads the \<open>Key\<close> of a storage object and the
  \<open>key\<close> and \<open>granuleId\<close> of an inventory record. The function \<open>buildS3Uri\<close> that turns
  bucket and key into the compared string comes from another package and is a parameter
  here. Strings are compared as JavaScript does, lexicographically by code unit.
\<close>

record s3Object =
  Key :: string

record withGranuleId =
  granuleId :: string

record dynamoDbItem = withGranuleId +
  key :: string

record counted =
  okCount :: nat

text \<open>
  \<open>okCountByGranule\<close> is an object literal, so it reads the properties of
  \<open>Object.prototype\<close> under their names (functions, all truthy) wherever it has no property
  of its own. A property of its own holds a count, or, once \<open>+= 1\<close> was applied to something
  that is not a number, a text or \<open>NaN\<close>.
\<close>

datatype counter = Count nat | Text | NaN

definition objectPrototypeKeys :: "string list" where
  "objectPrototypeKeys =
     [''constructor'', ''__defineGetter__'', ''__defineSetter__'', ''hasOwnProperty'',
      ''__lookupGetter__'', ''__lookupSetter__'', ''isPrototypeOf'', ''propertyIsEnumerable'',
      ''toString'', ''valueOf'', ''__proto__'', ''toLocaleString'']"

text \<open>The truthiness of \<open>okCountByGranule[g]\<close>.\<close>

definition counterTruthy :: "(string \<rightharpoonup> counter) \<Rightarrow> string \<Rightarrow> bool" where
  "counterTruthy m g =
     (case m g of
        Some (Count c) \<Rightarrow> c \<noteq> 0
      | Some Text \<Rightarrow> True
      | Some NaN \<Rightarrow> False
      | None \<Rightarrow> g \<in> set objectPrototypeKeys)"

text \<open>\<open>if (!okCountByGranule[g]) okCountByGranule[g] = 0\<close>.\<close>

definition initCount :: "(string \<rightharpoonup> counter) \<Rightarrow> string \<Rightarrow> (string \<rightharpoonup> counter)" where
  "initCount m g = (if counterTruthy m g then m else m(g \<mapsto> Count 0))"

text \<open>
  \<open>okCountByGranule[g] += 1\<close>: a count goes up by one; an inherited function plus one is a
  text, stored as a property of the object itself, except under \<open>__proto__\<close>, whose setter
  ignores a text; a text plus one is a text.
\<close>

definition incCount :: "(string \<rightharpoonup> counter) \<Rightarrow> string \<Rightarrow> (string \<rightharpoonup> counter)" where
  "incCount m g =
     (case m g of
        Some (Count c) \<Rightarrow> m(g \<mapsto> Count (c + 1))
      | Some Text \<Rightarrow> m(g \<mapsto> Text)
      | Some NaN \<Rightarrow> m(g \<mapsto> NaN)
      | None \<Rightarrow>
          if g = ''__proto__'' then m
          else if g \<in> set objectPrototypeKeys then m(g \<mapsto> Text)
          else m(g \<mapsto> NaN))"

record bucketReport = counted +
  onlyInS3 :: "string list"
  onlyInDynamoDb :: "(string \<times> string) list"
  okCountByGranule :: "string \<rightharpoonup> counter"

text \<open>
  The first loop: while both queues have a head, compare the two locations and consume
  the smaller side, or both when they are equal. The loop returns the queues as it left
  them, and the report so far.
\<close>

function mergeBucket ::
  "(string \<Rightarrow> string \<Rightarrow> string) \<Rightarrow> string \<Rightarrow> s3Object queue \<Rightarrow> dynamoDbItem queue
     \<Rightarrow> bucketReport \<Rightarrow> s3Object queue \<times> dynamoDbItem queue \<times> bucketReport" where
  "mergeBucket buildS3Uri Bucket s3ObjectsQueue dynamoDbFilesLister r =
     (case fst (peek s3ObjectsQueue) of
        None \<Rightarrow> (snd (peek s3ObjectsQueue), snd (peek dynamoDbFilesLister), r)
      | Some nextS3Object \<Rightarrow>
         (case fst (peek dynamoDbFilesLister) of
            None \<Rightarrow> (snd (peek s3ObjectsQueue), snd (peek dynamoDbFilesLister), r)
          | Some nextDynamoDbItem \<Rightarrow>
             (let nextS3Uri = buildS3Uri Bucket (Key nextS3Object);
                  nextDynamoDbUri = buildS3Uri Bucket (key nextDynamoDbItem);
                  r0 = r\<lparr>okCountByGranule :=
                          initCount (okCountByGranule r) (granuleId nextDynamoDbItem)\<rparr>
              in if nextS3Uri < nextDynamoDbUri then
                   mergeBucket buildS3Uri Bucket
                     (snd (shift (snd (peek s3ObjectsQueue)))) (snd (peek dynamoDbFilesLister))
                     (r0\<lparr>onlyInS3 := onlyInS3 r0 @ [nextS3Uri]\<rparr>)
                 else if nextS3Uri > nextDynamoDbUri then
                   mergeBucket buildS3Uri Bucket
                     (snd (peek s3ObjectsQueue)) (snd (shift (snd (peek dynamoDbFilesLister))))
                     (r0\<lparr>onlyInDynamoDb := onlyInDynamoDb r0 @
                           [(buildS3Uri Bucket (key nextDynamoDbItem), granuleId nextDynamoDbItem)]\<rparr>)
                 else
                   mergeBucket buildS3Uri Bucket
                     (snd (shift (snd (peek s3ObjectsQueue))))
                     (snd (shift (snd (peek dynamoDbFilesLister))))
                     (r0\<lparr>okCount := okCount r0 + 1,
                         okCountByGranule :=
                           incCount (okCountByGranule r0) (granuleId nextDynamoDbItem)\<rparr>))))"
  by pat_completeness auto
termination
  by (relation "measure (\<lambda>(f, b, s, d, r). length (remaining s) + length (remaining d))")
     (auto simp: shift_after_peek peek_remaining
           intro: shift_shorter add_less_mono add_less_le_mono add_le_less_mono)

text \<open>The second loop: whatever the storage listing still holds is only in storage.\<close>

function drainS3 ::
  "(string \<Rightarrow> string \<Rightarrow> string) \<Rightarrow> string \<Rightarrow> s3Object queue \<Rightarrow> string list \<Rightarrow> string list" where
  "drainS3 buildS3Uri Bucket s3ObjectsQueue acc =
     (case fst (peek s3ObjectsQueue) of
        None \<Rightarrow> acc
      | Some _ \<Rightarrow>
         (case shift (snd (peek s3ObjectsQueue)) of
            (None, q) \<Rightarrow> acc
          | (Some s3Object, q) \<Rightarrow>
              drainS3 buildS3Uri Bucket q (acc @ [buildS3Uri Bucket (Key s3Object)])))"
  by pat_completeness auto
termination
  by (relation "measure (\<lambda>(f, b, s, a). length (remaining s))")
     (auto simp: shift_after_peek intro: shift_pair_shorter)

text \<open>The third loop: whatever the inventory still holds is only in the inventory.\<close>

function drainDynamoDb ::
  "(string \<Rightarrow> string \<Rightarrow> string) \<Rightarrow> string \<Rightarrow> dynamoDbItem queue
     \<Rightarrow> (string \<times> string) list \<Rightarrow> (string \<times> string) list" where
  "drainDynamoDb buildS3Uri Bucket dynamoDbFilesLister acc =
     (case fst (peek dynamoDbFilesLister) of
        None \<Rightarrow> acc
      | Some _ \<Rightarrow>
         (case shift (snd (peek dynamoDbFilesLister)) of
            (None, q) \<Rightarrow> acc
          | (Some dynamoDbItem, q) \<Rightarrow>
              drainDynamoDb buildS3Uri Bucket q
                (acc @ [(buildS3Uri Bucket (key dynamoDbItem), granuleId dynamoDbItem)])))"
  by pat_completeness auto
termination
  by (relation "measure (\<lambda>(f, b, d, a). length (remaining d))")
     (auto simp: shift_after_peek intro: shift_pair_shorter)

declare mergeBucket.simps [simp del] drainS3.simps [simp del] drainDynamoDb.simps [simp del]

definition emptyBucketReport :: bucketReport where
  "emptyBucketReport =
     \<lparr>okCount = 0, onlyInS3 = [], onlyInDynamoDb = [], okCountByGranule = Map.empty\<rparr>"

definition createReconciliationReportForBucket ::
  "(string \<Rightarrow> string \<Rightarrow> string) \<Rightarrow> string \<Rightarrow> s3Object queue \<Rightarrow> dynamoDbItem queue
     \<Rightarrow> bucketReport" where
  "createReconciliationReportForBucket buildS3Uri Bucket s3ObjectsQueue dynamoDbFilesLister =
     (case mergeBucket buildS3Uri Bucket s3ObjectsQueue dynamoDbFilesLister emptyBucketReport of
        (s3q, dbq, r) \<Rightarrow>
          r\<lparr>onlyInS3 := drainS3 buildS3Uri Bucket s3q (onlyInS3 r),
            onlyInDynamoDb := drainDynamoDb buildS3Uri Bucket dbq (onlyInDynamoDb r)\<rparr>)"

text \<open>
  For the proofs: the same comparison written over the two whole listings, as lists.
  The queue-based function above is shown to compute exactly this on what its queues
  still hold, however the listings are cut into pages.
\<close>

fun mergeLists ::
  "(string \<Rightarrow> string \<Rightarrow> string) \<Rightarrow> string \<Rightarrow> s3Object list \<Rightarrow> dynamoDbItem list
     \<Rightarrow> bucketReport \<Rightarrow> bucketReport" where
  "mergeLists f b [] ds r =
     r\<lparr>onlyInDynamoDb := onlyInDynamoDb r @ map (\<lambda>d. (f b (key d), granuleId d)) ds\<rparr>"
| "mergeLists f b (s # ss) [] r =
     r\<lparr>onlyInS3 := onlyInS3 r @ map (\<lambda>s. f b (Key s)) (s # ss)\<rparr>"
| "mergeLists f b (s # ss) (d # ds) r =
     (let r0 = r\<lparr>okCountByGranule := initCount (okCountByGranule r) (granuleId d)\<rparr>
      in if f b (Key s) < f b (key d) then
           mergeLists f b ss (d # ds) (r0\<lparr>onlyInS3 := onlyInS3 r0 @ [f b (Key s)]\<rparr>)
         else if f b (Key s) > f b (key d) then
           mergeLists f b (s # ss) ds
             (r0\<lparr>onlyInDynamoDb := onlyInDynamoDb r0 @ [(f b (key d), granuleId d)]\<rparr>)
         else
           mergeLists f b ss ds
             (r0\<lparr>okCount := okCount r0 + 1,
                 okCountByGranule := incCount (okCountByGranule r0) (granuleId d)\<rparr>))"

subsection \<open>The queue-based comparison computes the list comparison\<close>

lemma drainS3_remaining:
  "drainS3 f b q acc = acc @ map (\<lambda>s. f b (Key s)) (remaining q)"
proof (induction f b q acc rule: drainS3.induct)
  case (1 f b q acc)
  show ?case
  proof (cases "remaining q")
    case Nil
    then show ?thesis
      by (subst drainS3.simps) (simp add: peek_value)
  next
    case (Cons x xs)
    obtain v q' where sh: "shift q = (v, q')" by (cases "shift q")
    have v: "v = Some x" using shift_value [of q] sh Cons by (simp add: peek_value)
    have q': "remaining q' = xs" using shift_remaining [of q] sh Cons by simp
    have pk: "fst (peek q) = Some x" using Cons by (simp add: peek_value)
    have "drainS3 f b q' (acc @ [f b (Key x)]) = (acc @ [f b (Key x)]) @ map (\<lambda>s. f b (Key s)) (remaining q')"
      using "1.IH" [of x "Some x" q' x] pk sh v by (simp add: shift_after_peek)
    then show ?thesis
      using pk sh v q' Cons
      by (subst drainS3.simps) (simp add: shift_after_peek)
  qed
qed

lemma drainDynamoDb_remaining:
  "drainDynamoDb f b q acc = acc @ map (\<lambda>d. (f b (key d), granuleId d)) (remaining q)"
proof (induction f b q acc rule: drainDynamoDb.induct)
  case (1 f b q acc)
  show ?case
  proof (cases "remaining q")
    case Nil
    then show ?thesis
      by (subst drainDynamoDb.simps) (simp add: peek_value)
  next
    case (Cons x xs)
    obtain v q' where sh: "shift q = (v, q')" by (cases "shift q")
    have v: "v = Some x" using shift_value [of q] sh Cons by (simp add: peek_value)
    have q': "remaining q' = xs" using shift_remaining [of q] sh Cons by simp
    have pk: "fst (peek q) = Some x" using Cons by (simp add: peek_value)
    have "drainDynamoDb f b q' (acc @ [(f b (key x), granuleId x)])
          = (acc @ [(f b (key x), granuleId x)]) @ map (\<lambda>d. (f b (key d), granuleId d)) (remaining q')"
      using "1.IH" [of x "Some x" q' x] pk sh v by (simp add: shift_after_peek)
    then show ?thesis
      using pk sh v q' Cons
      by (subst drainDynamoDb.simps) (simp add: shift_after_peek)
  qed
qed

definition finishBucket ::
  "(string \<Rightarrow> string \<Rightarrow> string) \<Rightarrow> string \<Rightarrow> s3Object queue \<times> dynamoDbItem queue \<times> bucketReport
     \<Rightarrow> bucketReport" where
  "finishBucket f b t = (case t of (s3q, dbq, r) \<Rightarrow>
          r\<lparr>onlyInS3 := drainS3 f b s3q (onlyInS3 r),
            onlyInDynamoDb := drainDynamoDb f b dbq (onlyInDynamoDb r)\<rparr>)"

lemma mergeBucket_lists:
  "finishBucket f b (mergeBucket f b s d r) = mergeLists f b (remaining s) (remaining d) r"
proof (induction f b s d r rule: mergeBucket.induct)
  case (1 f b s d r)
  show ?case
  proof (cases "remaining s")
    case Nil
    then show ?thesis
      by (subst mergeBucket.simps)
         (simp add: peek_value finishBucket_def drainS3_remaining drainDynamoDb_remaining
            peek_remaining)
  next
    case sC: (Cons x xs)
    show ?thesis
    proof (cases "remaining d")
      case Nil
      then show ?thesis using sC
        by (subst mergeBucket.simps)
           (simp add: peek_value finishBucket_def drainS3_remaining drainDynamoDb_remaining
              peek_remaining)
    next
      case dC: (Cons y ys)
      have ps: "fst (peek s) = Some x" and pd: "fst (peek d) = Some y"
        using sC dC by (simp_all add: peek_value)
      show ?thesis
        using "1.IH" [OF ps pd refl refl refl] sC dC ps pd
        by (subst mergeBucket.simps)
           (simp add: Let_def shift_after_peek shift_remaining peek_remaining)
    qed
  qed
qed

subsection \<open>What the list comparison returns on sorted listings\<close>

lemma sorted_head_less_notin:
  "sorted (y # ys) \<Longrightarrow> x < y \<Longrightarrow> (x::'a::linorder) \<notin> set (y # ys)"
  by auto

lemma inter_drop_left: "x \<notin> B \<Longrightarrow> insert x A \<inter> B = A \<inter> B"
  by auto

lemma inter_drop_right: "y \<notin> A \<Longrightarrow> A \<inter> insert y B = A \<inter> B"
  by auto

lemma mergeLists_counts:
  "okCount (mergeLists f b xs ys r) + length (onlyInS3 (mergeLists f b xs ys r))
     = okCount r + length (onlyInS3 r) + length xs
   \<and> okCount (mergeLists f b xs ys r) + length (onlyInDynamoDb (mergeLists f b xs ys r))
     = okCount r + length (onlyInDynamoDb r) + length ys"
  by (induction f b xs ys r rule: mergeLists.induct) (simp_all add: Let_def)

lemma mergeLists_okCount:
  "sorted (map (\<lambda>s. f b (Key s)) xs) \<Longrightarrow> distinct (map (\<lambda>s. f b (Key s)) xs) \<Longrightarrow>
   sorted (map (\<lambda>d. f b (key d)) ys) \<Longrightarrow> distinct (map (\<lambda>d. f b (key d)) ys) \<Longrightarrow>
   okCount (mergeLists f b xs ys r)
     = okCount r + card (set (map (\<lambda>s. f b (Key s)) xs) \<inter> set (map (\<lambda>d. f b (key d)) ys))"
proof (induction f b xs ys r rule: mergeLists.induct)
  case (1 f b ds r)
  then show ?case by simp
next
  case (2 f b s ss r)
  then show ?case by simp
next
  case (3 f b s ss d ds r)
  let ?A = "(\<lambda>s. f b (Key s)) ` set ss" and ?B = "(\<lambda>d. f b (key d)) ` set ds"
  let ?us = "f b (Key s)" and ?ud = "f b (key d)"
  from "3.prems" have sA: "\<forall>u\<in>?A. ?us < u" and sB: "\<forall>u\<in>?B. ?ud < u"
    by (auto simp: less_le)
  consider (lt) "?us < ?ud" | (gt) "?ud < ?us" | (eq) "?us = ?ud" by fastforce
  then show ?case
  proof cases
    case lt
    then have "?us \<notin> insert ?ud ?B" using sB by auto
    then have "insert ?us ?A \<inter> insert ?ud ?B = ?A \<inter> insert ?ud ?B" by (rule inter_drop_left)
    with lt "3.IH"(1) "3.prems" show ?thesis by (simp add: Let_def)
  next
    case gt
    then have "?ud \<notin> insert ?us ?A" using sA by auto
    then have "insert ?us ?A \<inter> insert ?ud ?B = insert ?us ?A \<inter> ?B" by (rule inter_drop_right)
    moreover have "\<not> ?us < ?ud" using gt by simp
    ultimately show ?thesis using gt "3.IH"(2) "3.prems" by (simp add: Let_def)
  next
    case eq
    have "?us \<notin> ?A" "?us \<notin> ?B" using sA sB eq by auto
    then have "insert ?us ?A \<inter> insert ?us ?B = insert ?us (?A \<inter> ?B)" "?us \<notin> ?A \<inter> ?B"
      by blast+
    then have "card (insert ?us ?A \<inter> insert ?us ?B) = Suc (card (?A \<inter> ?B))" by simp
    moreover have "\<not> ?us < ?ud" "\<not> ?ud < ?us" using eq by simp_all
    ultimately show ?thesis using eq "3.IH"(3) "3.prems" by (simp add: Let_def)
  qed
qed

lemma mergeLists_onlyInS3:
  "sorted (map (\<lambda>s. f b (Key s)) xs) \<Longrightarrow> distinct (map (\<lambda>s. f b (Key s)) xs) \<Longrightarrow>
   sorted (map (\<lambda>d. f b (key d)) ys) \<Longrightarrow> distinct (map (\<lambda>d. f b (key d)) ys) \<Longrightarrow>
   onlyInS3 (mergeLists f b xs ys r)
     = onlyInS3 r @ filter (\<lambda>u. u \<notin> set (map (\<lambda>d. f b (key d)) ys)) (map (\<lambda>s. f b (Key s)) xs)"
proof (induction f b xs ys r rule: mergeLists.induct)
  case (1 f b ds r)
  then show ?case by simp
next
  case (2 f b s ss r)
  then show ?case by simp
next
  case (3 f b s ss d ds r)
  let ?A = "(\<lambda>s. f b (Key s)) ` set ss" and ?B = "(\<lambda>d. f b (key d)) ` set ds"
  let ?us = "f b (Key s)" and ?ud = "f b (key d)"
  from "3.prems" have sA: "\<forall>u\<in>?A. ?us < u" and sB: "\<forall>u\<in>?B. ?ud < u"
    by (auto simp: less_le)
  consider (lt) "?us < ?ud" | (gt) "?ud < ?us" | (eq) "?us = ?ud" by fastforce
  then show ?case
  proof cases
    case lt
    then have "?us \<notin> insert ?ud ?B" using sB by auto
    with lt "3.IH"(1) "3.prems" show ?thesis by (simp add: Let_def)
  next
    case gt
    then have "\<forall>u \<in> insert ?us ?A. u \<noteq> ?ud" using sA by auto
    then have "filter (\<lambda>u. u \<notin> insert ?ud ?B) (map (\<lambda>s. f b (Key s)) (s # ss))
             = filter (\<lambda>u. u \<notin> ?B) (map (\<lambda>s. f b (Key s)) (s # ss))"
      by (intro filter_cong) auto
    moreover have "\<not> ?us < ?ud" using gt by simp
    ultimately show ?thesis using gt "3.IH"(2) "3.prems" by (simp add: Let_def)
  next
    case eq
    have "\<forall>u \<in> ?A. u \<noteq> ?ud" using sA eq by auto
    then have "filter (\<lambda>u. u \<notin> insert ?ud ?B) (map (\<lambda>s. f b (Key s)) ss)
             = filter (\<lambda>u. u \<notin> ?B) (map (\<lambda>s. f b (Key s)) ss)"
      by (intro filter_cong) auto
    moreover have "\<not> ?us < ?ud" "\<not> ?ud < ?us" using eq by simp_all
    ultimately show ?thesis using eq "3.IH"(3) "3.prems" by (simp add: Let_def)
  qed
qed

lemma mergeLists_onlyInDynamoDb:
  "sorted (map (\<lambda>s. f b (Key s)) xs) \<Longrightarrow> distinct (map (\<lambda>s. f b (Key s)) xs) \<Longrightarrow>
   sorted (map (\<lambda>d. f b (key d)) ys) \<Longrightarrow> distinct (map (\<lambda>d. f b (key d)) ys) \<Longrightarrow>
   onlyInDynamoDb (mergeLists f b xs ys r)
     = onlyInDynamoDb r @ map (\<lambda>d. (f b (key d), granuleId d))
         (filter (\<lambda>d. f b (key d) \<notin> set (map (\<lambda>s. f b (Key s)) xs)) ys)"
proof (induction f b xs ys r rule: mergeLists.induct)
  case (1 f b ds r)
  then show ?case by simp
next
  case (2 f b s ss r)
  then show ?case by simp
next
  case (3 f b s ss d ds r)
  let ?A = "(\<lambda>s. f b (Key s)) ` set ss" and ?B = "(\<lambda>d. f b (key d)) ` set ds"
  let ?us = "f b (Key s)" and ?ud = "f b (key d)"
  from "3.prems" have sA: "\<forall>u\<in>?A. ?us < u" and sB: "\<forall>u\<in>?B. ?ud < u"
    by (auto simp: less_le)
  consider (lt) "?us < ?ud" | (gt) "?ud < ?us" | (eq) "?us = ?ud" by fastforce
  then show ?case
  proof cases
    case lt
    then have "\<forall>e \<in> set (d # ds). f b (key e) \<noteq> ?us" using sB by auto
    then have "filter (\<lambda>d. f b (key d) \<notin> insert ?us ?A) (d # ds)
             = filter (\<lambda>d. f b (key d) \<notin> ?A) (d # ds)"
      by (intro filter_cong) auto
    with lt "3.IH"(1) "3.prems" show ?thesis by (simp add: Let_def)
  next
    case gt
    then have "?ud \<notin> insert ?us ?A" using sA by auto
    moreover have "\<not> ?us < ?ud" using gt by simp
    ultimately show ?thesis using gt "3.IH"(2) "3.prems" by (simp add: Let_def)
  next
    case eq
    have "\<forall>e \<in> set ds. f b (key e) \<noteq> ?us" using sB eq by auto
    then have "filter (\<lambda>d. f b (key d) \<notin> insert ?us ?A) ds
             = filter (\<lambda>d. f b (key d) \<notin> ?A) ds"
      by (intro filter_cong) auto
    moreover have "\<not> ?us < ?ud" "\<not> ?ud < ?us" using eq by simp_all
    ultimately show ?thesis using eq "3.IH"(3) "3.prems" by (simp add: Let_def)
  qed
qed

section \<open>Collections: search index against catalog\<close>

text \<open>
  Report parameters and the input event are JavaScript objects: maps from key to value.
  Only truthiness, string-ness and date parsing of the values are ever inspected.
\<close>

datatype json = JNull | JBool bool | JNum int | JStr string | JArr "json list"
  | JObj "(string \<times> json) list"

fun truthy :: "json option \<Rightarrow> bool" where
  "truthy None = False"
| "truthy (Some JNull) = False"
| "truthy (Some (JBool b)) = b"
| "truthy (Some (JNum n)) = (n \<noteq> 0)"
| "truthy (Some (JStr s)) = (s \<noteq> [])"
| "truthy (Some (JArr xs)) = True"
| "truthy (Some (JObj kvs)) = True"

text \<open>An error of the language thrown by the code.\<close>

datatype thrown = TypeError string

definition isOneWayReport :: "(string \<rightharpoonup> json) \<Rightarrow> bool" where
  "isOneWayReport reportParams =
     list_ex (\<lambda>e. truthy (reportParams e)) [''startTimestamp'', ''endTimestamp'']"

record collectionsReport =
  okCollections :: "string list"
  collectionsOnlyInCumulus :: "string list"
  collectionsOnlyInCmr :: "string list"

fun mergeCollections ::
  "bool \<Rightarrow> string list \<Rightarrow> string list \<Rightarrow> collectionsReport
     \<Rightarrow> string list \<times> string list \<times> collectionsReport" where
  "mergeCollections oneWayReport [] cmrCollectionIds r = ([], cmrCollectionIds, r)"
| "mergeCollections oneWayReport (d # es) [] r = (d # es, [], r)"
| "mergeCollections oneWayReport (nextDbCollectionId # es) (nextCmrCollectionId # cmr) r =
     (if nextDbCollectionId = [] \<or> nextCmrCollectionId = [] then
        (nextDbCollectionId # es, nextCmrCollectionId # cmr, r)
      else if nextDbCollectionId < nextCmrCollectionId then
        mergeCollections oneWayReport es (nextCmrCollectionId # cmr)
          (r\<lparr>collectionsOnlyInCumulus := collectionsOnlyInCumulus r @ [nextDbCollectionId]\<rparr>)
      else if nextDbCollectionId > nextCmrCollectionId then
        mergeCollections oneWayReport (nextDbCollectionId # es) cmr
          (if \<not> oneWayReport
           then r\<lparr>collectionsOnlyInCmr := collectionsOnlyInCmr r @ [nextCmrCollectionId]\<rparr>
           else r)
      else
        mergeCollections oneWayReport es cmr
          (r\<lparr>okCollections := okCollections r @ [nextDbCollectionId]\<rparr>))"

definition reconciliationReportForCollections ::
  "(string \<rightharpoonup> json) \<Rightarrow> string list \<Rightarrow> string list \<Rightarrow> collectionsReport" where
  "reconciliationReportForCollections recReportParams cmrCollectionIds esCollectionIds =
     (let oneWayReport = isOneWayReport recReportParams
      in case mergeCollections oneWayReport esCollectionIds cmrCollectionIds
                \<lparr>okCollections = [], collectionsOnlyInCumulus = [], collectionsOnlyInCmr = []\<rparr> of
           (es, cmr, r) \<Rightarrow>
             r\<lparr>collectionsOnlyInCumulus := collectionsOnlyInCumulus r @ es,
               collectionsOnlyInCmr :=
                 (if \<not> oneWayReport then collectionsOnlyInCmr r @ cmr
                  else collectionsOnlyInCmr r)\<rparr>)"

definition finishCollections :: "bool \<Rightarrow> string list \<times> string list \<times> collectionsReport \<Rightarrow> collectionsReport" where
  "finishCollections oneWay t = (case t of (es, cmr, r) \<Rightarrow>
             r\<lparr>collectionsOnlyInCumulus := collectionsOnlyInCumulus r @ es,
               collectionsOnlyInCmr :=
                 (if \<not> oneWay then collectionsOnlyInCmr r @ cmr
                  else collectionsOnlyInCmr r)\<rparr>)"

lemma mergeCollections_partition:
  "sorted es \<Longrightarrow> distinct es \<Longrightarrow> sorted cmr \<Longrightarrow> distinct cmr \<Longrightarrow>
   [] \<notin> set es \<Longrightarrow> [] \<notin> set cmr \<Longrightarrow>
   finishCollections oneWay (mergeCollections oneWay es cmr r) =
     \<lparr>okCollections = okCollections r @ filter (\<lambda>k. k \<in> set cmr) es,
      collectionsOnlyInCumulus = collectionsOnlyInCumulus r @ filter (\<lambda>k. k \<notin> set cmr) es,
      collectionsOnlyInCmr =
        (if oneWay then collectionsOnlyInCmr r
         else collectionsOnlyInCmr r @ filter (\<lambda>k. k \<notin> set es) cmr)\<rparr>"
proof (induction oneWay es cmr r rule: mergeCollections.induct)
  case (1 oneWay cmr r)
  then show ?case by (simp add: finishCollections_def)
next
  case (2 oneWay d es r)
  then show ?case by (simp add: finishCollections_def)
next
  case (3 oneWay d es c cmr r)
  from "3.prems" have sA: "\<forall>u\<in>set es. d < u" and sB: "\<forall>u\<in>set cmr. c < u"
    by (auto simp: less_le)
  from "3.prems" have ne: "d \<noteq> []" "c \<noteq> []" by auto
  consider (lt) "d < c" | (gt) "c < d" | (eq) "d = c" by fastforce
  then show ?case
  proof cases
    case lt
    then have "d \<notin> set (c # cmr)" using sB by auto
    moreover have "\<forall>e \<in> set (c # cmr). e \<noteq> d" using sB lt by auto
    then have "filter (\<lambda>k. k \<notin> set (d # es)) (c # cmr) = filter (\<lambda>k. k \<notin> set es) (c # cmr)"
      by (intro filter_cong) auto
    ultimately show ?thesis using lt ne "3.IH"(1) "3.prems" by simp
  next
    case gt
    then have nlt: "\<not> d < c" by simp
    have "c \<notin> set (d # es)" using sA gt by auto
    moreover have "\<forall>e \<in> set (d # es). e \<noteq> c" using sA gt by auto
    then have "filter (\<lambda>k. k \<notin> set (c # cmr)) (d # es) = filter (\<lambda>k. k \<notin> set cmr) (d # es)"
      and "filter (\<lambda>k. k \<in> set (c # cmr)) (d # es) = filter (\<lambda>k. k \<in> set cmr) (d # es)"
      by (intro filter_cong; auto)+
    ultimately show ?thesis using gt nlt ne "3.IH"(2) "3.prems" by simp
  next
    case eq
    then have nlt: "\<not> d < c" "\<not> c < d" by simp_all
    have "\<forall>e \<in> set es. e \<noteq> c" using sA eq by auto
    then have "filter (\<lambda>k. k \<notin> set (c # cmr)) es = filter (\<lambda>k. k \<notin> set cmr) es"
      and "filter (\<lambda>k. k \<in> set (c # cmr)) es = filter (\<lambda>k. k \<in> set cmr) es"
      by (intro filter_cong; auto)+
    moreover have "\<forall>e \<in> set cmr. e \<noteq> d" using sB eq by auto
    then have "filter (\<lambda>k. k \<notin> set (d # es)) cmr = filter (\<lambda>k. k \<notin> set es) cmr"
      by (intro filter_cong) auto
    ultimately show ?thesis using eq nlt ne "3.IH"(3) "3.prems" by simp
  qed
qed

lemma createReconciliationReportForBucket_lists:
  "createReconciliationReportForBucket f b s d
     = mergeLists f b (remaining s) (remaining d) emptyBucketReport"
  using mergeBucket_lists [of f b s d emptyBucketReport]
  by (simp add: createReconciliationReportForBucket_def finishBucket_def)

lemma reconciliationReportForCollections_finish:
  "reconciliationReportForCollections p cmr es
     = finishCollections (isOneWayReport p)
         (mergeCollections (isOneWayReport p) es cmr
            \<lparr>okCollections = [], collectionsOnlyInCumulus = [], collectionsOnlyInCmr = []\<rparr>)"
  by (simp add: reconciliationReportForCollections_def finishCollections_def Let_def)

lemma length_filter_common:
  "distinct xs \<Longrightarrow> distinct ys \<Longrightarrow>
   length (filter (\<lambda>k. k \<in> set ys) xs) = card (set xs \<inter> set ys)"
proof -
  assume "distinct xs"
  then have "length (filter (\<lambda>k. k \<in> set ys) xs) = card ({k. k \<in> set ys} \<inter> set xs)"
    by (rule distinct_length_filter)
  also have "{k. k \<in> set ys} \<inter> set xs = set xs \<inter> set ys" by auto
  finally show ?thesis .
qed

text \<open>
  Claim C1, as the code has it. The storage listing \<open>A\<close> and the inventory listing \<open>B\<close> are
  what the two queues still hold, compared by the location built from bucket and key; when
  both are sorted and free of duplicates, the bucket comparison returns
  \<open>okCount = |A \<inter> B|\<close>, \<open>onlyInS3 = A \<setminus> B\<close> and \<open>onlyInDynamoDb = B \<setminus> A\<close>, each in the
  original order, so \<open>|A| = okCount + |onlyInS3|\<close> and \<open>|B| = okCount + |onlyInDynamoDb|\<close>.

  The collection comparison works on two sorted lists of collection ids, each id built from
  a name and a version by \<open>constructCollectionId\<close>. That function comes from another package
  and is a parameter here; what is used of it is that an id is never the empty string.
  For \<open>A\<close> the ids of the search index and \<open>B\<close> those of the catalog, the comparison returns
  \<open>okCollections = A \<inter> B\<close> and \<open>onlyInCumulus = A \<setminus> B\<close> in the original order, so
  \<open>|A| = |okCollections| + |onlyInCumulus|\<close>, in every report; \<open>onlyInCmr\<close> is \<open>B \<setminus> A\<close> in
  the original order, with \<open>|B| = |okCollections| + |onlyInCmr|\<close>, when the report is two-way,
  and is empty when the report is one-way.
\<close>

theorem merge_join_partition:
  fixes buildS3Uri :: "string \<Rightarrow> string \<Rightarrow> string"
    and constructCollectionId :: "string \<Rightarrow> string \<Rightarrow> string"
  assumes "sorted (map (\<lambda>s. buildS3Uri Bucket (Key s)) (remaining s3q))"
    and "distinct (map (\<lambda>s. buildS3Uri Bucket (Key s)) (remaining s3q))"
    and "sorted (map (\<lambda>d. buildS3Uri Bucket (key d)) (remaining dbq))"
    and "distinct (map (\<lambda>d. buildS3Uri Bucket (key d)) (remaining dbq))"
    and "\<forall>n v. constructCollectionId n v \<noteq> []"
    and "sorted (map (\<lambda>(n, v). constructCollectionId n v) esItems)"
    and "distinct (map (\<lambda>(n, v). constructCollectionId n v) esItems)"
    and "sorted (map (\<lambda>(n, v). constructCollectionId n v) cmrItems)"
    and "distinct (map (\<lambda>(n, v). constructCollectionId n v) cmrItems)"
  shows
    "(let A = map (\<lambda>s. buildS3Uri Bucket (Key s)) (remaining s3q);
          B = map (\<lambda>d. buildS3Uri Bucket (key d)) (remaining dbq);
          R = createReconciliationReportForBucket buildS3Uri Bucket s3q dbq
      in okCount R = card (set A \<inter> set B)
       \<and> onlyInS3 R = filter (\<lambda>u. u \<notin> set B) A
       \<and> onlyInDynamoDb R = map (\<lambda>d. (buildS3Uri Bucket (key d), granuleId d))
            (filter (\<lambda>d. buildS3Uri Bucket (key d) \<notin> set A) (remaining dbq))
       \<and> length A = okCount R + length (onlyInS3 R)
       \<and> length B = okCount R + length (onlyInDynamoDb R))
     \<and> (let es = map (\<lambda>(n, v). constructCollectionId n v) esItems;
            cmr = map (\<lambda>(n, v). constructCollectionId n v) cmrItems;
            C = reconciliationReportForCollections recReportParams cmr es
        in okCollections C = filter (\<lambda>k. k \<in> set cmr) es
         \<and> length (okCollections C) = card (set es \<inter> set cmr)
         \<and> collectionsOnlyInCumulus C = filter (\<lambda>k. k \<notin> set cmr) es
         \<and> length es = length (okCollections C) + length (collectionsOnlyInCumulus C)
         \<and> collectionsOnlyInCmr C =
               (if isOneWayReport recReportParams then [] else filter (\<lambda>k. k \<notin> set es) cmr)
         \<and> (\<not> isOneWayReport recReportParams \<longrightarrow>
               length cmr = length (okCollections C) + length (collectionsOnlyInCmr C)))"
proof -
  let ?R = "createReconciliationReportForBucket buildS3Uri Bucket s3q dbq"
  let ?L = "mergeLists buildS3Uri Bucket (remaining s3q) (remaining dbq) emptyBucketReport"
  have RL: "?R = ?L" by (rule createReconciliationReportForBucket_lists)
  have b1: "okCount ?L = card (set (map (\<lambda>s. buildS3Uri Bucket (Key s)) (remaining s3q))
                \<inter> set (map (\<lambda>d. buildS3Uri Bucket (key d)) (remaining dbq)))"
    using mergeLists_okCount [of buildS3Uri Bucket "remaining s3q" "remaining dbq" emptyBucketReport] assms(1-4)
    by (simp add: emptyBucketReport_def)
  have b2: "onlyInS3 ?L = filter (\<lambda>u. u \<notin> set (map (\<lambda>d. buildS3Uri Bucket (key d)) (remaining dbq)))
                (map (\<lambda>s. buildS3Uri Bucket (Key s)) (remaining s3q))"
    using mergeLists_onlyInS3 [of buildS3Uri Bucket "remaining s3q" "remaining dbq" emptyBucketReport] assms(1-4)
    by (simp add: emptyBucketReport_def)
  have b3: "onlyInDynamoDb ?L = map (\<lambda>d. (buildS3Uri Bucket (key d), granuleId d))
            (filter (\<lambda>d. buildS3Uri Bucket (key d)
                \<notin> set (map (\<lambda>s. buildS3Uri Bucket (Key s)) (remaining s3q))) (remaining dbq))"
    using mergeLists_onlyInDynamoDb [of buildS3Uri Bucket "remaining s3q" "remaining dbq" emptyBucketReport] assms(1-4)
    by (simp add: emptyBucketReport_def)
  have b4: "length (remaining s3q) = okCount ?L + length (onlyInS3 ?L)"
    and b5: "length (remaining dbq) = okCount ?L + length (onlyInDynamoDb ?L)"
    using mergeLists_counts [of buildS3Uri Bucket "remaining s3q" "remaining dbq" emptyBucketReport]
    by (simp_all add: emptyBucketReport_def)
  have bucket: "let A = map (\<lambda>s. buildS3Uri Bucket (Key s)) (remaining s3q);
          B = map (\<lambda>d. buildS3Uri Bucket (key d)) (remaining dbq);
          R = createReconciliationReportForBucket buildS3Uri Bucket s3q dbq
      in okCount R = card (set A \<inter> set B)
       \<and> onlyInS3 R = filter (\<lambda>u. u \<notin> set B) A
       \<and> onlyInDynamoDb R = map (\<lambda>d. (buildS3Uri Bucket (key d), granuleId d))
            (filter (\<lambda>d. buildS3Uri Bucket (key d) \<notin> set A) (remaining dbq))
       \<and> length A = okCount R + length (onlyInS3 R)
       \<and> length B = okCount R + length (onlyInDynamoDb R)"
    unfolding Let_def RL using b1 b2 b3 b4 b5 by simp
  define es where "es = map (\<lambda>(n, v). constructCollectionId n v) esItems"
  define cmr where "cmr = map (\<lambda>(n, v). constructCollectionId n v) cmrItems"
  have ne: "[] \<notin> set es" "[] \<notin> set cmr"
    using assms(5) by (auto simp: es_def cmr_def dest: sym)
  have sd: "sorted es" "distinct es" "sorted cmr" "distinct cmr"
    using assms(6-9) by (simp_all add: es_def cmr_def)
  let ?C = "reconciliationReportForCollections recReportParams cmr es"
  have C: "?C = \<lparr>okCollections = filter (\<lambda>k. k \<in> set cmr) es,
      collectionsOnlyInCumulus = filter (\<lambda>k. k \<notin> set cmr) es,
      collectionsOnlyInCmr =
        (if isOneWayReport recReportParams then [] else filter (\<lambda>k. k \<notin> set es) cmr)\<rparr>"
    using mergeCollections_partition [OF sd ne, of "isOneWayReport recReportParams"
        "\<lparr>okCollections = [], collectionsOnlyInCumulus = [], collectionsOnlyInCmr = []\<rparr>"]
    by (simp add: reconciliationReportForCollections_finish)
  have c2: "length (filter (\<lambda>k. k \<in> set cmr) es) = card (set es \<inter> set cmr)"
    using sd(2,4) by (rule length_filter_common)
  have c5: "length es = length (filter (\<lambda>k. k \<in> set cmr) es) + length (filter (\<lambda>k. k \<notin> set cmr) es)"
    using sum_length_filter_compl [of "\<lambda>k. k \<in> set cmr" es] by simp
  have "length (filter (\<lambda>k. k \<in> set es) cmr) = card (set cmr \<inter> set es)"
    using sd(4,2) by (rule length_filter_common)
  then have "length (filter (\<lambda>k. k \<in> set es) cmr) = length (filter (\<lambda>k. k \<in> set cmr) es)"
    using c2 by (simp add: Int_commute)
  then have c6: "length cmr = length (filter (\<lambda>k. k \<in> set cmr) es) + length (filter (\<lambda>k. k \<notin> set es) cmr)"
    using sum_length_filter_compl [of "\<lambda>k. k \<in> set es" cmr] by simp
  have coll: "okCollections ?C = filter (\<lambda>k. k \<in> set cmr) es
         \<and> length (okCollections ?C) = card (set es \<inter> set cmr)
         \<and> collectionsOnlyInCumulus ?C = filter (\<lambda>k. k \<notin> set cmr) es
         \<and> length es = length (okCollections ?C) + length (collectionsOnlyInCumulus ?C)
         \<and> collectionsOnlyInCmr ?C =
               (if isOneWayReport recReportParams then [] else filter (\<lambda>k. k \<notin> set es) cmr)
         \<and> (\<not> isOneWayReport recReportParams \<longrightarrow>
               length cmr = length (okCollections ?C) + length (collectionsOnlyInCmr ?C))"
    unfolding C using c2 c5 c6 by simp
  show ?thesis
    using bucket coll unfolding es_def cmr_def Let_def by blast
qed

theorem merge_join_partition_witness:
  "(let R = createReconciliationReportForBucket (\<lambda>b k. ''s3://'' @ b @ ''/'' @ k) ''b''
              (Queue [] [[\<lparr>Key = ''a''\<rparr>], [\<lparr>Key = ''b''\<rparr>, \<lparr>Key = ''d''\<rparr>]])
              (Queue [] [[\<lparr>granuleId = ''g1'', key = ''a''\<rparr>, \<lparr>granuleId = ''g1'', key = ''c''\<rparr>],
                         [], [\<lparr>granuleId = ''g2'', key = ''d''\<rparr>]])
    in okCount R = 2 \<and> onlyInS3 R = [''s3://b/b''] \<and> onlyInDynamoDb R = [(''s3://b/c'', ''g1'')])
   \<and> (let C = reconciliationReportForCollections Map.empty
                [''X___v1'', ''Y___v1''] [''X___v1'', ''Z___v1'']
      in okCollections C = [''X___v1''] \<and> collectionsOnlyInCumulus C = [''Z___v1'']
       \<and> collectionsOnlyInCmr C = [''Y___v1''])"
proof -
  let ?f = "\<lambda>b k. ''s3://'' @ b @ ''/'' @ k"
  let ?c = "\<lambda>n v. n @ ''___'' @ v"
  let ?s3 = "Queue [] [[\<lparr>Key = ''a''\<rparr>], [\<lparr>Key = ''b''\<rparr>, \<lparr>Key = ''d''\<rparr>]]"
  let ?db = "Queue [] [[\<lparr>granuleId = ''g1'', key = ''a''\<rparr>, \<lparr>granuleId = ''g1'', key = ''c''\<rparr>],
                         [], [\<lparr>granuleId = ''g2'', key = ''d''\<rparr>]]"
  let ?es = "[(''X'', ''v1''), (''Z'', ''v1'')]"
  let ?cmr = "[(''X'', ''v1''), (''Y'', ''v1'')]"
  have h1: "sorted (map (\<lambda>s. ?f ''b'' (Key s)) (remaining ?s3))"
    and h2: "distinct (map (\<lambda>s. ?f ''b'' (Key s)) (remaining ?s3))"
    and h3: "sorted (map (\<lambda>d. ?f ''b'' (key d)) (remaining ?db))"
    and h4: "distinct (map (\<lambda>d. ?f ''b'' (key d)) (remaining ?db))"
    by simp_all
  have h5: "\<forall>n v. ?c n v \<noteq> []" by simp
  have h6: "sorted (map (\<lambda>(n, v). ?c n v) ?es)" "distinct (map (\<lambda>(n, v). ?c n v) ?es)"
    and h7: "sorted (map (\<lambda>(n, v). ?c n v) ?cmr)" "distinct (map (\<lambda>(n, v). ?c n v) ?cmr)"
    by simp_all
  have h8: "\<not> isOneWayReport Map.empty" by (simp add: isOneWayReport_def)
  note t = merge_join_partition [of ?f "''b''" ?s3 ?db ?c ?es ?cmr Map.empty,
      OF h1 h2 h3 h4 h5 h6 h7]
  have "let R = createReconciliationReportForBucket ?f ''b'' ?s3 ?db
    in okCount R = 2 \<and> onlyInS3 R = [''s3://b/b''] \<and> onlyInDynamoDb R = [(''s3://b/c'', ''g1'')]"
    using t [THEN conjunct1] by (simp add: Let_def)
  moreover have "let C = reconciliationReportForCollections Map.empty
                [''X___v1'', ''Y___v1''] [''X___v1'', ''Z___v1'']
      in okCollections C = [''X___v1''] \<and> collectionsOnlyInCumulus C = [''Z___v1'']
       \<and> collectionsOnlyInCmr C = [''Y___v1'']"
    using t [THEN conjunct2] h8 by (simp add: Let_def)
  ultimately show ?thesis by blast
qed

text \<open>
  Where the statement fails for the collections: with a start timestamp the report is
  one-way, and the collection \<open>Y___v1\<close>, which only the catalog has, is not reported, so the
  catalog side is no longer accounted for in full.
\<close>

theorem merge_join_partition_counterexample:
  "sorted [''X___v1'', ''Y___v1''] \<and> distinct [''X___v1'', ''Y___v1'']
   \<and> sorted [''X___v1'', ''Z___v1''] \<and> distinct [''X___v1'', ''Z___v1'']
   \<and> (let C = reconciliationReportForCollections
                 [''startTimestamp'' \<mapsto> JStr ''2020-01-01T00:00:00.000Z'']
                 [''X___v1'', ''Y___v1''] [''X___v1'', ''Z___v1'']
      in collectionsOnlyInCmr C \<noteq> filter (\<lambda>k. k \<notin> set [''X___v1'', ''Z___v1'']) [''X___v1'', ''Y___v1'']
       \<and> length [''X___v1'', ''Y___v1''] \<noteq> length (okCollections C) + length (collectionsOnlyInCmr C))"
  by (simp add: reconciliationReportForCollections_def isOneWayReport_def)

text \<open>
  Claim C3. A listing source cut into pages at any boundaries (empty pages included) and
  read through \<open>peek\<close> and \<open>shift\<close>, one buffered page at a time, gives exactly the
  report that the same source gives when it is delivered as one single page.
\<close>

theorem paging_does_not_matter:
  "createReconciliationReportForBucket buildS3Uri Bucket (Queue [] s3Pages) (Queue [] dynamoDbPages)
     = createReconciliationReportForBucket buildS3Uri Bucket
         (Queue [] [concat s3Pages]) (Queue [] [concat dynamoDbPages])"
  by (simp add: createReconciliationReportForBucket_lists)

section \<open>Files of one granule: inventory against catalog\<close>

text \<open>
  \<open>reconciliationReportForGranuleFiles\<close> reads, of a local file, \<open>fileName\<close>, \<open>bucket\<close>,
  \<open>key\<close> and \<open>source\<close> (the last three may be missing; \<open>key\<close> is called \<open>fileKey\<close> here, the
  inventory record above having a \<open>key\<close> already), and of a catalog URL entry \<open>URL\<close> and
  \<open>Type\<close>.
\<close>

record granuleFile =
  fileName :: string
  bucket :: "string option"
  fileKey :: "string option"
  source :: "string option"

record relatedUrl =
  URL :: string
  Type :: string

text \<open>
  Modelled from the spec: the bucket-visibility lookup (\<open>BucketsConfig\<close>, from another
  package). It lists the configured buckets, each with its name and its type; \<open>key\<close> finds
  the entry of a bucket name (nothing for a missing name or an unknown bucket), \<open>type\<close> gives
  the type of that entry. \<open>bucketTypes\<close> is the object that the function builds from the
  same list with \<open>reduce\<close>, a later entry of the same name overwriting an earlier one.
\<close>

type_synonym bucketsConfig = "(string \<times> string) list"

definition bucketsConfig_key :: "bucketsConfig \<Rightarrow> string option \<Rightarrow> (string \<times> string) option" where
  "bucketsConfig_key bucketsConfig b =
     (case b of None \<Rightarrow> None | Some bucketName \<Rightarrow> find (\<lambda>c. fst c = bucketName) bucketsConfig)"

definition bucketsConfig_type :: "bucketsConfig \<Rightarrow> string option \<Rightarrow> string option" where
  "bucketsConfig_type bucketsConfig b = map_option snd (bucketsConfig_key bucketsConfig b)"

definition bucketTypes :: "bucketsConfig \<Rightarrow> (string \<rightharpoonup> string)" where
  "bucketTypes bucketsConfig = foldl (\<lambda>acc c. acc(fst c \<mapsto> snd c)) Map.empty bucketsConfig"

text \<open>The URL roles: download (\<open>cmrGetDataTypes\<close>) and related information.\<close>

definition cmrGetDataTypes :: "string list" where
  "cmrGetDataTypes = [''GET DATA'', ''GET RELATED VISUALIZATION'']"

definition cmrRelatedDataTypes :: "string list" where
  "cmrRelatedDataTypes = [''VIEW RELATED INFORMATION'']"

text \<open>\<open>relatedUrl.URL.split('/').pop()\<close>: what follows the last slash.\<close>

definition urlFileName :: "string \<Rightarrow> string" where
  "urlFileName url = rev (takeWhile (\<lambda>c. c \<noteq> CHR ''/'') (rev url))"

text \<open>
  \<open>granuleFiles\<close> is a JavaScript object used as a dictionary: an association list with one
  entry per key, in insertion order. \<open>assign\<close> is \<open>obj[k] = v\<close> (an existing key keeps its
  place), \<open>deleteKey\<close> is \<open>delete obj[k]\<close>, and \<open>keyBy\<close> is lodash's: of several files with
  the same name the last one stays. A name that \<open>Object.prototype\<close> has (\<open>constructor\<close>, ...)
  and no file has reads as an object without \<open>bucket\<close>, which no configured bucket matches:
  the same outcome as no file, so \<open>map_of\<close> on the entries is the lookup.
\<close>

fun assign :: "string \<Rightarrow> 'v \<Rightarrow> (string \<times> 'v) list \<Rightarrow> (string \<times> 'v) list" where
  "assign k v [] = [(k, v)]"
| "assign k v (p # ps) = (if fst p = k then (k, v) # ps else p # assign k v ps)"

definition deleteKey :: "string \<Rightarrow> (string \<times> 'v) list \<Rightarrow> (string \<times> 'v) list" where
  "deleteKey k obj = filter (\<lambda>p. fst p \<noteq> k) obj"

definition keyBy :: "granuleFile list \<Rightarrow> (string \<times> granuleFile) list" where
  "keyBy files = foldl (\<lambda>acc f. assign (fileName f) f acc) [] files"

text \<open>
  \<open>Object.keys\<close> lists the keys that are array indices (\<open>0\<close> to \<open>4294967294\<close>, written
  without leading zeros) first, in ascending numeric order, then the other keys in insertion
  order.
\<close>

definition digitValue :: "char \<Rightarrow> int" where
  "digitValue c = int (of_char c) - int (of_char CHR ''0'')"

definition isDigit :: "char \<Rightarrow> bool" where
  "isDigit c = (CHR ''0'' \<le> c \<and> c \<le> CHR ''9'')"

definition indexValue :: "string \<Rightarrow> int" where
  "indexValue s = foldl (\<lambda>n c. 10 * n + digitValue c) 0 s"

definition isArrayIndex :: "string \<Rightarrow> bool" where
  "isArrayIndex s = (s \<noteq> [] \<and> list_all isDigit s \<and> (s = ''0'' \<or> hd s \<noteq> CHR ''0'')
                      \<and> indexValue s < 4294967295)"

definition objectKeys :: "(string \<times> 'v) list \<Rightarrow> string list" where
  "objectKeys obj = sort_key indexValue (filter isArrayIndex (map fst obj))
                      @ filter (\<lambda>k. \<not> isArrayIndex k) (map fst obj)"

text \<open>
  The report of a comparison against the catalog, \<open>{ okCount, onlyInCumulus, onlyInCmr }\<close>.
  For files an entry of \<open>onlyInCumulus\<close> is \<open>(fileName, uri, granuleId)\<close> and an entry of
  \<open>onlyInCmr\<close> is \<open>(URL, Type, GranuleUR)\<close>. \<open>fileState\<close> adds the dictionary that the
  function mutates while it runs.
\<close>

record ('a, 'b) cmrReport = counted +
  onlyInCumulus :: "'a list"
  onlyInCmr :: "'b list"

type_synonym cumulusFileEntry = "string \<times> string option \<times> string"
type_synonym cmrFileEntry = "string \<times> string \<times> string"

record fileState = "(cumulusFileEntry, cmrFileEntry) cmrReport" +
  granuleFiles :: "(string \<times> granuleFile) list"

record esGranule = withGranuleId +
  files :: "granuleFile list"

record granuleInDb = esGranule +
  collectionId :: string

record granuleInCmr =
  GranuleUR :: string
  ShortName :: string
  Version :: string
  RelatedUrls :: "relatedUrl list"

text \<open>
  The body of the function is \<open>granuleInCmr.RelatedUrls.map(async (relatedUrl) => ...)\<close>
  followed by \<open>await Promise.all(...)\<close>. \<open>map\<close> calls the callback on every entry in turn, and
  each call runs up to its first \<open>await\<close> before the next call starts; what follows an
  \<open>await\<close> runs only after \<open>map\<close> has returned. So every entry is first looked up in the
  dictionary as \<open>keyBy\<close> built it, and an entry that finds no file (or a file in a bucket
  that is not configured) is finished at once: a download entry is pushed to \<open>onlyInCmr\<close>
  there and then. An entry that finds its file is suspended at
  \<open>await constructOnlineAccessUrl(...)\<close>; the suspended entries are resumed in their order,
  and only then are URLs compared, counts and pushes made and files deleted.

  \<open>constructOnlineAccessUrl\<close> comes from another package and is a parameter: a pure function
  (as the spec has it) of the bucket types, the file and the kind of URL (\<open>distribution\<close> or
  \<open>s3\<close>), returning the \<open>URL\<close> of its result if it has one. Since no file is deleted before
  every suspended entry has read its file for the second call, both calls see the file
  found at the start.

  \<open>fileInBoth\<close> is the test
  \<open>granuleFiles[urlFileName] && bucketsConfig.key(granuleFiles[urlFileName].bucket)\<close>.
\<close>

definition fileInBoth :: "bucketsConfig \<Rightarrow> (string \<times> granuleFile) list \<Rightarrow> relatedUrl \<Rightarrow> granuleFile option" where
  "fileInBoth bucketsConfig gf relatedUrl =
     (case map_of gf (urlFileName (URL relatedUrl)) of
        None \<Rightarrow> None
      | Some file \<Rightarrow> if bucketsConfig_key bucketsConfig (bucket file) \<noteq> None then Some file else None)"

text \<open>One callback up to its first \<open>await\<close>: suspended with its file, or finished.\<close>

definition relatedUrlStart ::
  "bucketsConfig \<Rightarrow> string \<Rightarrow> relatedUrl \<Rightarrow> fileState \<Rightarrow> (relatedUrl \<times> granuleFile) option \<times> fileState" where
  "relatedUrlStart bucketsConfig granuleUR relatedUrl st =
     (if Type relatedUrl \<in> set cmrGetDataTypes \<or> Type relatedUrl \<in> set cmrRelatedDataTypes then
        (case fileInBoth bucketsConfig (granuleFiles st) relatedUrl of
           Some file \<Rightarrow> (Some (relatedUrl, file), st)
         | None \<Rightarrow>
            if Type relatedUrl \<in> set cmrGetDataTypes then
              (None, st\<lparr>onlyInCmr := onlyInCmr st @ [(URL relatedUrl, Type relatedUrl, granuleUR)]\<rparr>)
            else (None, st))
      else (None, st))"

text \<open>\<open>map\<close> over all entries: the suspended callbacks in order, and the state left.\<close>

fun startRelatedUrls ::
  "bucketsConfig \<Rightarrow> string \<Rightarrow> relatedUrl list \<Rightarrow> fileState
     \<Rightarrow> (relatedUrl \<times> granuleFile) list \<times> fileState" where
  "startRelatedUrls bucketsConfig granuleUR [] st = ([], st)"
| "startRelatedUrls bucketsConfig granuleUR (relatedUrl # rest) st =
     (case relatedUrlStart bucketsConfig granuleUR relatedUrl st of
        (None, st') \<Rightarrow> startRelatedUrls bucketsConfig granuleUR rest st'
      | (Some suspended, st') \<Rightarrow>
          (case startRelatedUrls bucketsConfig granuleUR rest st' of
             (others, st'') \<Rightarrow> (suspended # others, st'')))"

text \<open>
  A suspended callback resumed: the two candidate URLs, the comparison with the catalog URL,
  and \<open>delete granuleFiles[urlFileName]\<close>, which follows whatever the comparison gave.
\<close>

definition urlMatches ::
  "((string \<rightharpoonup> string) \<Rightarrow> granuleFile \<Rightarrow> string \<Rightarrow> string option) \<Rightarrow> bucketsConfig
     \<Rightarrow> relatedUrl \<times> granuleFile \<Rightarrow> bool" where
  "urlMatches constructOnlineAccessUrl bucketsConfig p =
     (case p of (relatedUrl, file) \<Rightarrow>
        constructOnlineAccessUrl (bucketTypes bucketsConfig) file ''distribution'' = Some (URL relatedUrl)
      \<or> constructOnlineAccessUrl (bucketTypes bucketsConfig) file ''s3'' = Some (URL relatedUrl))"

definition relatedUrlResume ::
  "((string \<rightharpoonup> string) \<Rightarrow> granuleFile \<Rightarrow> string \<Rightarrow> string option) \<Rightarrow> bucketsConfig \<Rightarrow> string
     \<Rightarrow> fileState \<Rightarrow> relatedUrl \<times> granuleFile \<Rightarrow> fileState" where
  "relatedUrlResume constructOnlineAccessUrl bucketsConfig granuleUR st p =
     (case p of (relatedUrl, file) \<Rightarrow>
       (let distributionAccessUrl =
              constructOnlineAccessUrl (bucketTypes bucketsConfig) file ''distribution'';
            s3AccessUrl = constructOnlineAccessUrl (bucketTypes bucketsConfig) file ''s3'';
            st1 = (if distributionAccessUrl = Some (URL relatedUrl) then
                     st\<lparr>okCount := okCount st + 1\<rparr>
                   else if s3AccessUrl = Some (URL relatedUrl) then
                     st\<lparr>okCount := okCount st + 1\<rparr>
                   else if Type relatedUrl \<in> set cmrGetDataTypes then
                     st\<lparr>onlyInCmr := onlyInCmr st @ [(URL relatedUrl, Type relatedUrl, granuleUR)]\<rparr>
                   else st)
        in st1\<lparr>granuleFiles := deleteKey (urlFileName (URL relatedUrl)) (granuleFiles st1)\<rparr>))"

text \<open>
  The files still in the dictionary, in the order of \<open>Object.keys\<close>: a file in a private
  bucket is counted, any other is pushed to \<open>onlyInCumulus\<close> with its location (built from
  bucket and key when both are non-empty, its \<open>source\<close> otherwise).
\<close>

definition isPrivate :: "bucketsConfig \<Rightarrow> granuleFile \<Rightarrow> bool" where
  "isPrivate bucketsConfig file =
     (bucketsConfig_key bucketsConfig (bucket file) \<noteq> None
      \<and> bucketsConfig_type bucketsConfig (bucket file) = Some ''private'')"

definition truthyString :: "string option \<Rightarrow> bool" where
  "truthyString s = (case s of None \<Rightarrow> False | Some v \<Rightarrow> v \<noteq> [])"

definition fileUri :: "(string \<Rightarrow> string \<Rightarrow> string) \<Rightarrow> granuleFile \<Rightarrow> string option" where
  "fileUri buildS3Uri file =
     (if truthyString (bucket file) \<and> truthyString (fileKey file)
      then Some (buildS3Uri (the (bucket file)) (the (fileKey file)))
      else source file)"

definition remainingFile ::
  "(string \<Rightarrow> string \<Rightarrow> string) \<Rightarrow> bucketsConfig \<Rightarrow> string \<Rightarrow> fileState \<Rightarrow> string \<Rightarrow> fileState" where
  "remainingFile buildS3Uri bucketsConfig gid st name =
     (case map_of (granuleFiles st) name of
        None \<Rightarrow> st
      | Some file \<Rightarrow>
          if isPrivate bucketsConfig file then st\<lparr>okCount := okCount st + 1\<rparr>
          else st\<lparr>onlyInCumulus := onlyInCumulus st @ [(name, fileUri buildS3Uri file, gid)]\<rparr>)"

text \<open>The whole function.\<close>

definition reconciliationReportForGranuleFiles ::
  "((string \<rightharpoonup> string) \<Rightarrow> granuleFile \<Rightarrow> string \<Rightarrow> string option) \<Rightarrow> (string \<Rightarrow> string \<Rightarrow> string)
     \<Rightarrow> granuleInDb \<Rightarrow> granuleInCmr \<Rightarrow> bucketsConfig
     \<Rightarrow> (cumulusFileEntry, cmrFileEntry) cmrReport" where
  "reconciliationReportForGranuleFiles constructOnlineAccessUrl buildS3Uri granuleInDb granuleInCmr
       bucketsConfig =
     (let st0 = \<lparr>okCount = 0, onlyInCumulus = [], onlyInCmr = [],
                 granuleFiles = keyBy (files granuleInDb)\<rparr>;
          (suspended, st1) =
             startRelatedUrls bucketsConfig (GranuleUR granuleInCmr) (RelatedUrls granuleInCmr) st0;
          st2 = foldl (relatedUrlResume constructOnlineAccessUrl bucketsConfig (GranuleUR granuleInCmr))
                  st1 suspended;
          st3 = foldl (remainingFile buildS3Uri bucketsConfig (granuleId granuleInDb))
                  st2 (objectKeys (granuleFiles st2))
      in \<lparr>okCount = okCount st3, onlyInCumulus = onlyInCumulus st3, onlyInCmr = onlyInCmr st3\<rparr>)"

subsection \<open>What each phase of the file comparison leaves\<close>

definition relevantType :: "string \<Rightarrow> bool" where
  "relevantType t = (t \<in> set cmrGetDataTypes \<or> t \<in> set cmrRelatedDataTypes)"

definition suspends ::
  "bucketsConfig \<Rightarrow> (string \<times> granuleFile) list \<Rightarrow> relatedUrl \<Rightarrow> (relatedUrl \<times> granuleFile) option" where
  "suspends bucketsConfig gf u =
     (if relevantType (Type u) then map_option (Pair u) (fileInBoth bucketsConfig gf u) else None)"

definition unmatchedNow :: "bucketsConfig \<Rightarrow> (string \<times> granuleFile) list \<Rightarrow> relatedUrl \<Rightarrow> bool" where
  "unmatchedNow bucketsConfig gf u =
     (Type u \<in> set cmrGetDataTypes \<and> fileInBoth bucketsConfig gf u = None)"

definition cmrEntry :: "string \<Rightarrow> relatedUrl \<Rightarrow> cmrFileEntry" where
  "cmrEntry granuleUR u = (URL u, Type u, granuleUR)"

definition cumulusEntry ::
  "(string \<Rightarrow> string \<Rightarrow> string) \<Rightarrow> string \<Rightarrow> string \<times> granuleFile \<Rightarrow> cumulusFileEntry" where
  "cumulusEntry buildS3Uri gid kv = (fst kv, fileUri buildS3Uri (snd kv), gid)"

lemma relatedUrlStart_granuleFiles:
  "granuleFiles (snd (relatedUrlStart cfg ur u st)) = granuleFiles st"
  by (simp add: relatedUrlStart_def split: option.splits)

lemma relatedUrlStart_char:
  "relatedUrlStart cfg ur u st =
     (suspends cfg (granuleFiles st) u,
      st\<lparr>onlyInCmr := onlyInCmr st @ map (cmrEntry ur) (filter (unmatchedNow cfg (granuleFiles st)) [u])\<rparr>)"
  by (simp add: relatedUrlStart_def suspends_def unmatchedNow_def relevantType_def cmrEntry_def
           split: option.splits)

lemma startRelatedUrls_char:
  "startRelatedUrls cfg ur urls st =
     (List.map_filter (suspends cfg (granuleFiles st)) urls,
      st\<lparr>onlyInCmr := onlyInCmr st @ map (cmrEntry ur) (filter (unmatchedNow cfg (granuleFiles st)) urls)\<rparr>)"
proof (induction urls arbitrary: st)
  case Nil
  then show ?case by (simp add: List.map_filter_simps)
next
  case (Cons u urls)
  show ?case
    by (cases "suspends cfg (granuleFiles st) u")
       (simp_all add: relatedUrlStart_char Cons.IH List.map_filter_simps)
qed

lemma resume_fold_okCount:
  "okCount (foldl (relatedUrlResume cau cfg ur) st ps)
     = okCount st + length (filter (urlMatches cau cfg) ps)"
  by (induction ps arbitrary: st)
     (auto simp: relatedUrlResume_def urlMatches_def Let_def split: prod.splits)

lemma resume_fold_onlyInCmr:
  "onlyInCmr (foldl (relatedUrlResume cau cfg ur) st ps)
     = onlyInCmr st @ map (\<lambda>p. cmrEntry ur (fst p))
         (filter (\<lambda>p. \<not> urlMatches cau cfg p \<and> Type (fst p) \<in> set cmrGetDataTypes) ps)"
  by (induction ps arbitrary: st)
     (auto simp: relatedUrlResume_def urlMatches_def Let_def cmrEntry_def split: prod.splits)

lemma resume_fold_onlyInCumulus:
  "onlyInCumulus (foldl (relatedUrlResume cau cfg ur) st ps) = onlyInCumulus st"
  by (induction ps arbitrary: st)
     (auto simp: relatedUrlResume_def Let_def split: prod.splits)

lemma resume_fold_granuleFiles:
  "granuleFiles (foldl (relatedUrlResume cau cfg ur) st ps)
     = filter (\<lambda>kv. fst kv \<notin> set (map (\<lambda>p. urlFileName (URL (fst p))) ps)) (granuleFiles st)"
proof (induction ps arbitrary: st)
  case Nil
  then show ?case by simp
next
  case (Cons p ps)
  obtain u f where p: "p = (u, f)" by (cases p)
  have "granuleFiles (relatedUrlResume cau cfg ur st p)
          = filter (\<lambda>kv. fst kv \<noteq> urlFileName (URL u)) (granuleFiles st)"
    by (auto simp: relatedUrlResume_def Let_def p deleteKey_def)
  then show ?case
    by (simp add: Cons.IH p)
qed

lemma remaining_fold_granuleFiles:
  "granuleFiles (foldl (remainingFile f cfg gid) st ks) = granuleFiles st"
  by (induction ks arbitrary: st) (simp_all add: remainingFile_def split: option.splits)

lemma remaining_fold_onlyInCmr:
  "onlyInCmr (foldl (remainingFile f cfg gid) st ks) = onlyInCmr st"
  by (induction ks arbitrary: st) (simp_all add: remainingFile_def split: option.splits)

lemma remaining_fold_okCount:
  "okCount (foldl (remainingFile f cfg gid) st ks)
     = okCount st + length (filter (\<lambda>k. case map_of (granuleFiles st) k of
                                          Some file \<Rightarrow> isPrivate cfg file | None \<Rightarrow> False) ks)"
proof (induction ks arbitrary: st)
  case Nil
  then show ?case by simp
next
  case (Cons k ks)
  have g: "granuleFiles (remainingFile f cfg gid st k) = granuleFiles st"
    by (simp add: remainingFile_def split: option.splits)
  show ?case
    by (simp add: Cons.IH g) (simp add: remainingFile_def split: option.splits)
qed

lemma remaining_fold_onlyInCumulus:
  "onlyInCumulus (foldl (remainingFile f cfg gid) st ks)
     = onlyInCumulus st @
       map (\<lambda>k. (k, fileUri f (the (map_of (granuleFiles st) k)), gid))
         (filter (\<lambda>k. case map_of (granuleFiles st) k of
                         Some file \<Rightarrow> \<not> isPrivate cfg file | None \<Rightarrow> False) ks)"
proof (induction ks arbitrary: st)
  case Nil
  then show ?case by simp
next
  case (Cons k ks)
  have g: "granuleFiles (remainingFile f cfg gid st k) = granuleFiles st"
    by (simp add: remainingFile_def split: option.splits)
  show ?case
    by (simp add: Cons.IH g) (simp add: remainingFile_def split: option.splits)
qed

lemma objectKeys_mset: "mset (objectKeys obj) = mset (map fst obj)"
proof -
  have "mset (objectKeys obj) = mset (filter isArrayIndex (map fst obj))
          + mset (filter (\<lambda>k. \<not> isArrayIndex k) (map fst obj))"
    by (simp add: objectKeys_def)
  then show ?thesis by (simp only: mset_filter multiset_partition [symmetric])
qed

lemma map_of_distinct_entry:
  "distinct (map fst obj) \<Longrightarrow> kv \<in> set obj \<Longrightarrow> map_of obj (fst kv) = Some (snd kv)"
  by (cases kv) simp

lemma objectKeys_values:
  assumes "distinct (map fst obj)"
  shows "mset (map (\<lambda>k. F k (map_of obj k)) (filter (\<lambda>k. Q (map_of obj k)) (objectKeys obj)))
       = mset (map (\<lambda>kv. F (fst kv) (Some (snd kv))) (filter (\<lambda>kv. Q (Some (snd kv))) obj))"
proof -
  have "mset (map (\<lambda>k. F k (map_of obj k)) (filter (\<lambda>k. Q (map_of obj k)) (objectKeys obj)))
      = image_mset (\<lambda>k. F k (map_of obj k)) (filter_mset (\<lambda>k. Q (map_of obj k)) (mset (objectKeys obj)))"
    by simp
  also have "\<dots> = mset (map (\<lambda>k. F k (map_of obj k)) (filter (\<lambda>k. Q (map_of obj k)) (map fst obj)))"
    by (simp add: objectKeys_mset)
  also have "filter (\<lambda>k. Q (map_of obj k)) (map fst obj)
               = map fst (filter (\<lambda>kv. Q (map_of obj (fst kv))) obj)"
    by (simp add: filter_map comp_def)
  also have "filter (\<lambda>kv. Q (map_of obj (fst kv))) obj = filter (\<lambda>kv. Q (Some (snd kv))) obj"
    using assms by (intro filter_cong refl) (simp add: map_of_distinct_entry)
  also have "map (\<lambda>k. F k (map_of obj k)) (map fst (filter (\<lambda>kv. Q (Some (snd kv))) obj))
               = map (\<lambda>kv. F (fst kv) (Some (snd kv))) (filter (\<lambda>kv. Q (Some (snd kv))) obj)"
    using assms by (simp add: map_of_distinct_entry)
  finally show ?thesis .
qed

lemma assign_keys: "fst ` set (assign k v obj) = insert k (fst ` set obj)"
  by (induction obj) auto

lemma assign_distinct: "distinct (map fst obj) \<Longrightarrow> distinct (map fst (assign k v obj))"
  by (induction obj) (auto simp: assign_keys)

lemma keyBy_fold_distinct:
  "distinct (map fst acc) \<Longrightarrow>
   distinct (map fst (foldl (\<lambda>acc f. assign (fileName f) f acc) acc fs))"
  by (induction fs arbitrary: acc) (simp_all add: assign_distinct)

lemma keyBy_distinct: "distinct (map fst (keyBy fs))"
  by (simp add: keyBy_def keyBy_fold_distinct)

lemma assign_new: "k \<notin> fst ` set obj \<Longrightarrow> assign k v obj = obj @ [(k, v)]"
  by (induction obj) auto

lemma keyBy_fold_distinct_names:
  "distinct (map fileName fs) \<Longrightarrow> fst ` set acc \<inter> fileName ` set fs = {} \<Longrightarrow>
   foldl (\<lambda>acc f. assign (fileName f) f acc) acc fs = acc @ map (\<lambda>f. (fileName f, f)) fs"
proof (induction fs arbitrary: acc)
  case Nil
  then show ?case by simp
next
  case (Cons f fs)
  have "assign (fileName f) f acc = acc @ [(fileName f, f)]"
    using Cons.prems(2) by (intro assign_new) auto
  moreover have "fst ` set (acc @ [(fileName f, f)]) \<inter> fileName ` set fs = {}"
    using Cons.prems by auto
  ultimately show ?case using Cons.IH [of "acc @ [(fileName f, f)]"] Cons.prems(1) by simp
qed

lemma keyBy_distinct_names:
  "distinct (map fileName fs) \<Longrightarrow> keyBy fs = map (\<lambda>f. (fileName f, f)) fs"
  using keyBy_fold_distinct_names [of fs "[]"] by (simp add: keyBy_def)

definition suspendedUrls ::
  "bucketsConfig \<Rightarrow> granuleFile list \<Rightarrow> relatedUrl list \<Rightarrow> (relatedUrl \<times> granuleFile) list" where
  "suspendedUrls cfg fs urls = List.map_filter (suspends cfg (keyBy fs)) urls"

definition leftoverFiles ::
  "bucketsConfig \<Rightarrow> granuleFile list \<Rightarrow> relatedUrl list \<Rightarrow> (string \<times> granuleFile) list" where
  "leftoverFiles cfg fs urls =
     filter (\<lambda>kv. fst kv \<notin> set (map (\<lambda>p. urlFileName (URL (fst p))) (suspendedUrls cfg fs urls)))
       (keyBy fs)"

lemma leftoverFiles_distinct: "distinct (map fst (leftoverFiles cfg fs urls))"
  unfolding leftoverFiles_def using keyBy_distinct [of fs] by (rule distinct_map_filter)

lemma objectKeys_count:
  assumes "distinct (map fst obj)"
  shows "length (filter (\<lambda>k. Q (map_of obj k)) (objectKeys obj))
           = length (filter (\<lambda>kv. Q (Some (snd kv))) obj)"
proof -
  have "size (mset (map (\<lambda>k. ()) (filter (\<lambda>k. Q (map_of obj k)) (objectKeys obj))))
          = size (mset (map (\<lambda>kv. ()) (filter (\<lambda>kv. Q (Some (snd kv))) obj)))"
    using objectKeys_values [OF assms, of "\<lambda>k v. ()" Q] by (rule arg_cong)
  then show ?thesis by (simp only: size_mset length_map)
qed

lemma report_okCount:
  "okCount (reconciliationReportForGranuleFiles cau f db cmr cfg)
     = length (filter (urlMatches cau cfg) (suspendedUrls cfg (files db) (RelatedUrls cmr)))
       + length (filter (\<lambda>kv. isPrivate cfg (snd kv)) (leftoverFiles cfg (files db) (RelatedUrls cmr)))"
proof -
  let ?L = "leftoverFiles cfg (files db) (RelatedUrls cmr)"
  have "length (filter (\<lambda>k. case map_of ?L k of Some file \<Rightarrow> isPrivate cfg file | None \<Rightarrow> False)
                  (objectKeys ?L))
        = length (filter (\<lambda>kv. isPrivate cfg (snd kv)) ?L)"
    using objectKeys_count [where obj = ?L
        and Q = "\<lambda>v. case v of Some file \<Rightarrow> isPrivate cfg file | None \<Rightarrow> False",
        OF leftoverFiles_distinct]
    by simp
  then show ?thesis
    by (simp add: reconciliationReportForGranuleFiles_def Let_def startRelatedUrls_char
          remaining_fold_okCount resume_fold_okCount resume_fold_granuleFiles
          suspendedUrls_def leftoverFiles_def split: prod.splits)
qed

lemma report_onlyInCmr:
  "onlyInCmr (reconciliationReportForGranuleFiles cau f db cmr cfg)
     = map (cmrEntry (GranuleUR cmr)) (filter (unmatchedNow cfg (keyBy (files db))) (RelatedUrls cmr))
       @ map (\<lambda>p. cmrEntry (GranuleUR cmr) (fst p))
           (filter (\<lambda>p. \<not> urlMatches cau cfg p \<and> Type (fst p) \<in> set cmrGetDataTypes)
              (suspendedUrls cfg (files db) (RelatedUrls cmr)))"
  by (simp add: reconciliationReportForGranuleFiles_def Let_def startRelatedUrls_char
        remaining_fold_onlyInCmr resume_fold_onlyInCmr suspendedUrls_def split: prod.splits)

lemma report_onlyInCumulus:
  "mset (onlyInCumulus (reconciliationReportForGranuleFiles cau f db cmr cfg))
     = mset (map (cumulusEntry f (granuleId db))
               (filter (\<lambda>kv. \<not> isPrivate cfg (snd kv)) (leftoverFiles cfg (files db) (RelatedUrls cmr))))"
proof -
  let ?L = "leftoverFiles cfg (files db) (RelatedUrls cmr)"
  have "mset (map (\<lambda>k. (k, fileUri f (the (map_of ?L k)), granuleId db))
               (filter (\<lambda>k. case map_of ?L k of Some file \<Rightarrow> \<not> isPrivate cfg file | None \<Rightarrow> False)
                  (objectKeys ?L)))
        = mset (map (cumulusEntry f (granuleId db)) (filter (\<lambda>kv. \<not> isPrivate cfg (snd kv)) ?L))"
    using objectKeys_values [where obj = ?L and F = "\<lambda>k v. (k, fileUri f (the v), granuleId db)"
        and Q = "\<lambda>v. case v of Some file \<Rightarrow> \<not> isPrivate cfg file | None \<Rightarrow> False",
        OF leftoverFiles_distinct]
    by (simp add: cumulusEntry_def [abs_def])
  then show ?thesis
    by (simp add: reconciliationReportForGranuleFiles_def Let_def startRelatedUrls_char
          remaining_fold_onlyInCumulus resume_fold_onlyInCumulus resume_fold_granuleFiles
          suspendedUrls_def leftoverFiles_def split: prod.splits)
qed





lemma suspendedUrls_Cons:
  "suspends cfg (keyBy fs) u = Some p \<Longrightarrow>
   suspendedUrls cfg fs (u # us) = p # suspendedUrls cfg fs us"
  by (simp add: suspendedUrls_def List.map_filter_simps)





lemma unmatchedNow_suspends:
  "suspends cfg gf u = Some p \<Longrightarrow> \<not> unmatchedNow cfg gf u"
  by (auto simp: suspends_def unmatchedNow_def split: if_splits)

text \<open>
  For the examples: an access-URL policy after the repository's tests of the URL
  construction (\<open>returns correct url for protected data\<close>,
  \<open>Returns empty list for private data\<close>, \<open>returns correct links with s3 cmrGranuleUrlType\<close>).
  A file in a protected or public bucket gets the distribution endpoint followed by bucket
  and key, or \<open>s3://bucket/key\<close> for the \<open>s3\<close> kind; any other file gets no URL.
\<close>

definition exampleAccessUrl :: "(string \<rightharpoonup> string) \<Rightarrow> granuleFile \<Rightarrow> string \<Rightarrow> string option" where
  "exampleAccessUrl types file urlType =
     (case (bucket file, fileKey file) of
        (Some b, Some k) \<Rightarrow>
          if types b = Some ''protected'' \<or> types b = Some ''public'' then
            (if urlType = ''s3'' then Some (''s3://'' @ b @ ''/'' @ k)
             else Some (''https://endpoint/'' @ b @ ''/'' @ k))
          else None
      | _ \<Rightarrow> None)"

definition exampleBuckets :: bucketsConfig where
  "exampleBuckets = [(''priv'', ''private''), (''prot'', ''protected''), (''pub'', ''public'')]"


lemmas file_eval = reconciliationReportForGranuleFiles_def keyBy_def relatedUrlStart_def
  relatedUrlResume_def remainingFile_def objectKeys_def isArrayIndex_def isDigit_def
  fileInBoth_def urlFileName_def bucketsConfig_key_def bucketsConfig_type_def bucketTypes_def
  cmrGetDataTypes_def cmrRelatedDataTypes_def isPrivate_def fileUri_def truthyString_def
  deleteKey_def exampleAccessUrl_def exampleBuckets_def Let_def


subsection \<open>Accounting of files and URL entries\<close>

text \<open>
  \<open>countsOk\<close>: the entry is of download or related-information role, names a local file in
  a configured bucket, and equals one of that file's two candidate URLs. \<open>namedByUrl\<close>: some
  entry of such a role names the file, whose bucket is configured; these are the files
  that a resumed callback deletes.
\<close>

definition countsOk ::
  "((string \<rightharpoonup> string) \<Rightarrow> granuleFile \<Rightarrow> string \<Rightarrow> string option) \<Rightarrow> bucketsConfig
     \<Rightarrow> granuleFile list \<Rightarrow> relatedUrl \<Rightarrow> bool" where
  "countsOk cau cfg fs u =
     (case suspends cfg (keyBy fs) u of None \<Rightarrow> False | Some p \<Rightarrow> urlMatches cau cfg p)"

definition namedByUrl :: "bucketsConfig \<Rightarrow> granuleFile list \<Rightarrow> relatedUrl list \<Rightarrow> granuleFile \<Rightarrow> bool" where
  "namedByUrl cfg fs urls g =
     list_ex (\<lambda>u. suspends cfg (keyBy fs) u \<noteq> None \<and> urlFileName (URL u) = fileName g) urls"

lemma suspends_fst: "suspends cfg gf u = Some p \<Longrightarrow> fst p = u"
  by (auto simp: suspends_def split: if_splits)

lemma suspendedUrls_Cons_None:
  "suspends cfg (keyBy fs) u = None \<Longrightarrow> suspendedUrls cfg fs (u # us) = suspendedUrls cfg fs us"
  by (simp add: suspendedUrls_def List.map_filter_simps)

lemma suspendedUrls_Nil: "suspendedUrls cfg fs [] = []"
  by (simp add: suspendedUrls_def List.map_filter_simps)

lemma matched_count:
  "length (filter (urlMatches cau cfg) (suspendedUrls cfg fs urls))
     = length (filter (countsOk cau cfg fs) urls)"
proof (induction urls)
  case Nil
  then show ?case by (simp add: suspendedUrls_Nil)
next
  case (Cons u urls)
  then show ?case
    by (cases "suspends cfg (keyBy fs) u")
       (simp_all add: suspendedUrls_Cons suspendedUrls_Cons_None countsOk_def)
qed

lemma suspended_names:
  "fileName g \<in> set (map (\<lambda>p. urlFileName (URL (fst p))) (suspendedUrls cfg fs urls))
     \<longleftrightarrow> namedByUrl cfg fs urls g"
proof (induction urls)
  case Nil
  then show ?case by (simp add: suspendedUrls_Nil namedByUrl_def)
next
  case (Cons u urls)
  show ?case
  proof (cases "suspends cfg (keyBy fs) u")
    case None
    with Cons show ?thesis by (simp add: suspendedUrls_Cons_None namedByUrl_def)
  next
    case (Some p)
    with Cons suspends_fst [OF Some] show ?thesis
      by (auto simp: suspendedUrls_Cons namedByUrl_def)
  qed
qed

lemma assign_named:
  "\<forall>kv \<in> set obj. fst kv = fileName (snd kv) \<Longrightarrow>
   \<forall>kv \<in> set (assign (fileName g) g obj). fst kv = fileName (snd kv)"
  by (induction obj) auto

lemma keyBy_fold_named:
  "\<forall>kv \<in> set acc. fst kv = fileName (snd kv) \<Longrightarrow>
   \<forall>kv \<in> set (foldl (\<lambda>acc f. assign (fileName f) f acc) acc fs). fst kv = fileName (snd kv)"
proof (induction fs arbitrary: acc)
  case Nil
  then show ?case by simp
next
  case (Cons g fs)
  show ?case using Cons.IH [OF assign_named [OF Cons.prems]] by simp
qed

lemma keyBy_named: "keyBy fs = map (\<lambda>g. (fileName g, g)) (map snd (keyBy fs))"
proof -
  have "\<forall>kv \<in> set (keyBy fs). fst kv = fileName (snd kv)"
    using keyBy_fold_named [of "[]" fs] by (simp add: keyBy_def)
  then have "map (\<lambda>kv. (fileName (snd kv), snd kv)) (keyBy fs) = map (\<lambda>kv. kv) (keyBy fs)"
    by (intro map_cong refl) (auto simp: prod_eq_iff)
  then show ?thesis by (simp add: comp_def)
qed

lemma leftoverFiles_kept:
  "leftoverFiles cfg fs urls
     = map (\<lambda>g. (fileName g, g)) (filter (\<lambda>g. \<not> namedByUrl cfg fs urls g) (map snd (keyBy fs)))"
proof -
  let ?names = "set (map (\<lambda>p. urlFileName (URL (fst p))) (suspendedUrls cfg fs urls))"
  have "leftoverFiles cfg fs urls
      = filter (\<lambda>kv. fst kv \<notin> ?names) (map (\<lambda>g. (fileName g, g)) (map snd (keyBy fs)))"
    unfolding leftoverFiles_def by (subst keyBy_named) (rule refl)
  also have "\<dots> = map (\<lambda>g. (fileName g, g)) (filter (\<lambda>g. fileName g \<notin> ?names) (map snd (keyBy fs)))"
    by (simp add: filter_map comp_def)
  finally show ?thesis by (simp only: suspended_names)
qed

lemma onlyInCmr_downloads:
  "mset (filter (unmatchedNow cfg (keyBy fs)) urls)
   + mset (map fst (filter (\<lambda>p. \<not> urlMatches cau cfg p \<and> Type (fst p) \<in> set cmrGetDataTypes)
                      (suspendedUrls cfg fs urls)))
   = mset (filter (\<lambda>u. Type u \<in> set cmrGetDataTypes \<and> \<not> countsOk cau cfg fs u) urls)"
proof (induction urls)
  case Nil
  then show ?case by (simp add: suspendedUrls_Nil)
next
  case (Cons u urls)
  show ?case
  proof (cases "suspends cfg (keyBy fs) u")
    case None
    have "unmatchedNow cfg (keyBy fs) u \<longleftrightarrow> Type u \<in> set cmrGetDataTypes"
      using None by (auto simp: unmatchedNow_def suspends_def relevantType_def split: if_splits)
    with None Cons show ?thesis
      by (simp add: suspendedUrls_Cons_None countsOk_def)
  next
    case (Some p)
    have "\<not> unmatchedNow cfg (keyBy fs) u" using Some by (rule unmatchedNow_suspends)
    with Some Cons suspends_fst [OF Some] show ?thesis
      by (auto simp: suspendedUrls_Cons countsOk_def)
  qed
qed

text \<open>
  Claim C4, as the code has it. Local files are kept under their file names (all of them
  when the names are distinct, the last of each name otherwise). \<open>okCount\<close> is the number of
  catalog URL entries that count as matched plus the number of kept private files that no
  URL entry names; \<open>onlyInCumulus\<close> holds, once each, the kept files that are not private and
  that no URL entry names. So every kept file that no URL entry names is accounted for
  exactly once across \<open>okCount\<close> and \<open>onlyInCumulus\<close>, while a file that an entry names is
  deleted when that entry is resumed, whether or not the URL matched, and is then in neither
  list. Every download-role URL entry is accounted for exactly once: it counts as matched,
  or it is in \<open>onlyInCmr\<close>.
\<close>

theorem file_accounting:
  "(let R = reconciliationReportForGranuleFiles cau f db cmr cfg;
        urls = RelatedUrls cmr;
        kept = map snd (keyBy (files db));
        unnamed = filter (\<lambda>g. \<not> namedByUrl cfg (files db) urls g) kept;
        downloads = filter (\<lambda>u. Type u \<in> set cmrGetDataTypes) urls
    in okCount R = length (filter (countsOk cau cfg (files db)) urls)
                     + length (filter (isPrivate cfg) unnamed)
     \<and> mset (onlyInCumulus R)
         = mset (map (\<lambda>g. (fileName g, fileUri f g, granuleId db))
                   (filter (\<lambda>g. \<not> isPrivate cfg g) unnamed))
     \<and> length unnamed = length (filter (isPrivate cfg) unnamed) + length (onlyInCumulus R)
     \<and> mset (onlyInCmr R)
         = mset (map (\<lambda>u. (URL u, Type u, GranuleUR cmr))
                   (filter (\<lambda>u. \<not> countsOk cau cfg (files db) u) downloads))
     \<and> length downloads
         = length (filter (countsOk cau cfg (files db)) downloads) + length (onlyInCmr R)
     \<and> (distinct (map fileName (files db)) \<longrightarrow> kept = files db))"
proof -
  let ?R = "reconciliationReportForGranuleFiles cau f db cmr cfg"
  let ?urls = "RelatedUrls cmr"
  let ?kept = "map snd (keyBy (files db))"
  let ?unnamed = "filter (\<lambda>g. \<not> namedByUrl cfg (files db) ?urls g) ?kept"
  let ?downloads = "filter (\<lambda>u. Type u \<in> set cmrGetDataTypes) ?urls"
  let ?ok = "countsOk cau cfg (files db)"
  have L: "leftoverFiles cfg (files db) ?urls = map (\<lambda>g. (fileName g, g)) ?unnamed"
    by (rule leftoverFiles_kept)
  have a: "okCount ?R = length (filter ?ok ?urls) + length (filter (isPrivate cfg) ?unnamed)"
    by (simp only: report_okCount matched_count L) (simp add: filter_map comp_def)
  have b: "mset (onlyInCumulus ?R)
           = mset (map (\<lambda>g. (fileName g, fileUri f g, granuleId db))
                     (filter (\<lambda>g. \<not> isPrivate cfg g) ?unnamed))"
    by (simp only: report_onlyInCumulus L) (simp add: filter_map comp_def cumulusEntry_def)
  have "length (onlyInCumulus ?R) = length (filter (\<lambda>g. \<not> isPrivate cfg g) ?unnamed)"
    using b [THEN arg_cong, of size] by (simp only: size_mset length_map)
  then have c: "length ?unnamed = length (filter (isPrivate cfg) ?unnamed) + length (onlyInCumulus ?R)"
    using sum_length_filter_compl [of "isPrivate cfg" ?unnamed] by simp
  have "mset (onlyInCmr ?R)
      = image_mset (cmrEntry (GranuleUR cmr))
          (mset (filter (unmatchedNow cfg (keyBy (files db))) ?urls)
           + mset (map fst (filter (\<lambda>p. \<not> urlMatches cau cfg p \<and> Type (fst p) \<in> set cmrGetDataTypes)
                              (suspendedUrls cfg (files db) ?urls))))"
    by (simp add: report_onlyInCmr image_mset.compositionality comp_def)
  then have d: "mset (onlyInCmr ?R)
           = mset (map (\<lambda>u. (URL u, Type u, GranuleUR cmr)) (filter (\<lambda>u. \<not> ?ok u) ?downloads))"
    by (simp only: onlyInCmr_downloads) (simp add: cmrEntry_def [abs_def] conj_commute)
  have "length (onlyInCmr ?R) = length (filter (\<lambda>u. \<not> ?ok u) ?downloads)"
    using d [THEN arg_cong, of size] by (simp only: size_mset length_map)
  then have e: "length ?downloads = length (filter ?ok ?downloads) + length (onlyInCmr ?R)"
    using sum_length_filter_compl [of ?ok ?downloads] by simp
  have g: "distinct (map fileName (files db)) \<longrightarrow> ?kept = files db"
    by (simp add: keyBy_distinct_names comp_def)
  show ?thesis
    unfolding Let_def using a b c d e g by blast
qed

theorem file_accounting_witness:
  "(let f1 = \<lparr>fileName = ''f1.hdf'', bucket = Some ''prot'', fileKey = Some ''p/f1.hdf'', source = None\<rparr>;
        f2 = \<lparr>fileName = ''f2.hdf'', bucket = Some ''priv'', fileKey = Some ''p/f2.hdf'', source = None\<rparr>;
        db = \<lparr>granuleId = ''g'', files = [f1, f2], collectionId = ''c''\<rparr>;
        cmr = \<lparr>GranuleUR = ''g'', ShortName = ''s'', Version = ''1'',
                RelatedUrls = [\<lparr>URL = ''https://endpoint/prot/p/f1.hdf'', Type = ''GET DATA''\<rparr>]\<rparr>;
        R = reconciliationReportForGranuleFiles exampleAccessUrl (\<lambda>b k. ''s3://'' @ b @ ''/'' @ k)
              db cmr exampleBuckets
    in distinct (map fileName (files db)) \<and> map snd (keyBy (files db)) = files db
     \<and> okCount R = 2 \<and> onlyInCumulus R = [] \<and> onlyInCmr R = [])"
proof -
  let ?f1 = "\<lparr>fileName = ''f1.hdf'', bucket = Some ''prot'', fileKey = Some ''p/f1.hdf'', source = None\<rparr>"
  let ?f2 = "\<lparr>fileName = ''f2.hdf'', bucket = Some ''priv'', fileKey = Some ''p/f2.hdf'', source = None\<rparr>"
  let ?db = "\<lparr>granuleId = ''g'', files = [?f1, ?f2], collectionId = ''c''\<rparr>"
  let ?u = "\<lparr>URL = ''https://endpoint/prot/p/f1.hdf'', Type = ''GET DATA''\<rparr>"
  let ?cmr = "\<lparr>GranuleUR = ''g'', ShortName = ''s'', Version = ''1'', RelatedUrls = [?u]\<rparr>"
  note t = file_accounting [where db = ?db and cmr = ?cmr and cfg = exampleBuckets
      and cau = exampleAccessUrl and f = "\<lambda>b k. ''s3://'' @ b @ ''/'' @ k", unfolded Let_def]
  have k: "keyBy [?f1, ?f2] = [(''f1.hdf'', ?f1), (''f2.hdf'', ?f2)]"
    by (simp add: keyBy_def)
  have s: "suspends exampleBuckets [(''f1.hdf'', ?f1), (''f2.hdf'', ?f2)] ?u = Some (?u, ?f1)"
    by (simp add: suspends_def relevantType_def cmrGetDataTypes_def fileInBoth_def urlFileName_def
          bucketsConfig_key_def exampleBuckets_def)
  have m: "urlMatches exampleAccessUrl exampleBuckets (?u, ?f1)"
    by (simp add: urlMatches_def exampleAccessUrl_def bucketTypes_def exampleBuckets_def)
  have c: "countsOk exampleAccessUrl exampleBuckets [?f1, ?f2] ?u"
    by (simp add: countsOk_def k s m)
  have n: "namedByUrl exampleBuckets [?f1, ?f2] [?u] ?f1" "\<not> namedByUrl exampleBuckets [?f1, ?f2] [?u] ?f2"
    by (simp_all add: namedByUrl_def k s urlFileName_def)
  have p: "isPrivate exampleBuckets ?f2"
    by (simp add: isPrivate_def bucketsConfig_key_def bucketsConfig_type_def exampleBuckets_def)
  have d: "distinct (map fileName (files ?db))" by simp
  from t have "okCount (reconciliationReportForGranuleFiles exampleAccessUrl (\<lambda>b k. ''s3://'' @ b @ ''/'' @ k)
              ?db ?cmr exampleBuckets) = 2"
    "mset (onlyInCumulus (reconciliationReportForGranuleFiles exampleAccessUrl (\<lambda>b k. ''s3://'' @ b @ ''/'' @ k)
              ?db ?cmr exampleBuckets)) = {#}"
    "mset (onlyInCmr (reconciliationReportForGranuleFiles exampleAccessUrl (\<lambda>b k. ''s3://'' @ b @ ''/'' @ k)
              ?db ?cmr exampleBuckets)) = {#}"
    "map snd (keyBy (files ?db)) = files ?db"
    using c n p d by (simp_all add: k cmrGetDataTypes_def)
  then show ?thesis using d by (simp add: Let_def)
qed

text \<open>
  Where the claim as stated fails: the one local file, in a protected bucket, is named by a
  download entry of the catalog whose URL is neither of the file's candidate URLs. The entry
  goes to \<open>onlyInCmr\<close> and the file is deleted: it is counted in neither \<open>okCount\<close> nor
  \<open>onlyInCumulus\<close>.
\<close>

theorem file_accounting_counterexample:
  "(let f1 = \<lparr>fileName = ''f1.hdf'', bucket = Some ''prot'', fileKey = Some ''p/f1.hdf'', source = None\<rparr>;
        db = \<lparr>granuleId = ''g'', files = [f1], collectionId = ''c''\<rparr>;
        cmr = \<lparr>GranuleUR = ''g'', ShortName = ''s'', Version = ''1'',
                RelatedUrls = [\<lparr>URL = ''https://elsewhere/f1.hdf'', Type = ''GET DATA''\<rparr>]\<rparr>;
        R = reconciliationReportForGranuleFiles exampleAccessUrl (\<lambda>b k. ''s3://'' @ b @ ''/'' @ k)
              db cmr exampleBuckets
    in okCount R = 0 \<and> onlyInCumulus R = []
     \<and> onlyInCmr R = [(''https://elsewhere/f1.hdf'', ''GET DATA'', ''g'')]
     \<and> okCount R + length (onlyInCumulus R) < length (files db))"
  by (simp add: file_eval)

subsection \<open>A file that no catalog URL names\<close>


















section \<open>Granules of one collection: index against catalog\<close>

text \<open>
  \<open>reconciliationReportForGranules\<close> reads the granules of the search index
  (\<open>granuleId\<close>, \<open>files\<close>) and those of the catalog (\<open>umm.GranuleUR\<close>,
  \<open>umm.CollectionReference.ShortName\<close> and \<open>Version\<close>, \<open>umm.RelatedUrls\<close>, held here in one
  record) through two queues. An entry of \<open>onlyInCumulus\<close> is a granule id with the
  collection id, an entry of \<open>onlyInCmr\<close> is \<open>GranuleUR\<close>, \<open>ShortName\<close> and \<open>Version\<close>.
\<close>

record granuleReports =
  granulesReport :: "(string \<times> string, string \<times> string \<times> string) cmrReport"
  filesReport :: "(cumulusFileEntry, cmrFileEntry) cmrReport"

text \<open>
  The first loop. Both queues are peeked before every test of the loop condition; the loop
  returns the queues as it left them, the catalog item peeked last (\<open>nextCmrItem\<close>) and the
  reports so far. Two granules with the same id have their files compared at once.
\<close>

function mergeGranules ::
  "((string \<rightharpoonup> string) \<Rightarrow> granuleFile \<Rightarrow> string \<Rightarrow> string option) \<Rightarrow> (string \<Rightarrow> string \<Rightarrow> string)
     \<Rightarrow> string \<Rightarrow> bucketsConfig \<Rightarrow> bool \<Rightarrow> esGranule queue \<Rightarrow> granuleInCmr queue \<Rightarrow> granuleReports
     \<Rightarrow> esGranule queue \<times> granuleInCmr queue \<times> granuleInCmr option \<times> granuleReports" where
  "mergeGranules constructOnlineAccessUrl buildS3Uri collection bucketsConfig oneWay
       esGranulesIterator cmrGranulesIterator st =
     (case fst (peek esGranulesIterator) of
        None \<Rightarrow> (snd (peek esGranulesIterator), snd (peek cmrGranulesIterator),
                 fst (peek cmrGranulesIterator), st)
      | Some nextDbItem \<Rightarrow>
         (case fst (peek cmrGranulesIterator) of
            None \<Rightarrow> (snd (peek esGranulesIterator), snd (peek cmrGranulesIterator), None, st)
          | Some nextCmrItem \<Rightarrow>
             (let nextDbGranuleId = granuleId nextDbItem;
                  nextCmrGranuleId = GranuleUR nextCmrItem
              in if nextDbGranuleId < nextCmrGranuleId then
                   mergeGranules constructOnlineAccessUrl buildS3Uri collection bucketsConfig oneWay
                     (snd (shift (snd (peek esGranulesIterator)))) (snd (peek cmrGranulesIterator))
                     (st\<lparr>granulesReport := (granulesReport st)
                           \<lparr>onlyInCumulus := onlyInCumulus (granulesReport st)
                                               @ [(nextDbGranuleId, collection)]\<rparr>\<rparr>)
                 else if nextDbGranuleId > nextCmrGranuleId then
                   mergeGranules constructOnlineAccessUrl buildS3Uri collection bucketsConfig oneWay
                     (snd (peek esGranulesIterator)) (snd (shift (snd (peek cmrGranulesIterator))))
                     (if \<not> oneWay then
                        st\<lparr>granulesReport := (granulesReport st)
                             \<lparr>onlyInCmr := onlyInCmr (granulesReport st)
                                 @ [(nextCmrGranuleId, ShortName nextCmrItem, Version nextCmrItem)]\<rparr>\<rparr>
                      else st)
                 else
                   (let granuleInDb = \<lparr>granuleId = nextDbGranuleId, files = files nextDbItem,
                                       collectionId = collection\<rparr>;
                        granuleInCmr = \<lparr>GranuleUR = nextCmrGranuleId,
                                        ShortName = ShortName nextCmrItem,
                                        Version = Version nextCmrItem,
                                        RelatedUrls = RelatedUrls nextCmrItem\<rparr>;
                        fileReport = reconciliationReportForGranuleFiles constructOnlineAccessUrl
                                       buildS3Uri granuleInDb granuleInCmr bucketsConfig
                    in mergeGranules constructOnlineAccessUrl buildS3Uri collection bucketsConfig oneWay
                         (snd (shift (snd (peek esGranulesIterator))))
                         (snd (shift (snd (peek cmrGranulesIterator))))
                         (st\<lparr>granulesReport := (granulesReport st)
                                \<lparr>okCount := okCount (granulesReport st) + 1\<rparr>,
                             filesReport :=
                               \<lparr>okCount = okCount (filesReport st) + okCount fileReport,
                                onlyInCumulus = onlyInCumulus (filesReport st) @ onlyInCumulus fileReport,
                                onlyInCmr = onlyInCmr (filesReport st) @ onlyInCmr fileReport\<rparr>\<rparr>)))))"
  by pat_completeness auto
termination
  by (relation "measure (\<lambda>(c, f, i, b, w, s, d, r). length (remaining s) + length (remaining d))")
     (auto simp: shift_after_peek peek_remaining
           intro: shift_shorter add_less_mono add_less_le_mono add_le_less_mono)

text \<open>The second loop: the granules the index still holds are only in the index.\<close>

function drainEsGranules ::
  "string \<Rightarrow> esGranule queue \<Rightarrow> (string \<times> string) list \<Rightarrow> (string \<times> string) list" where
  "drainEsGranules collection esGranulesIterator acc =
     (case fst (peek esGranulesIterator) of
        None \<Rightarrow> acc
      | Some _ \<Rightarrow>
         (case shift (snd (peek esGranulesIterator)) of
            (None, q) \<Rightarrow> acc
          | (Some dbItem, q) \<Rightarrow> drainEsGranules collection q (acc @ [(granuleId dbItem, collection)])))"
  by pat_completeness auto
termination
  by (relation "measure (\<lambda>(c, s, a). length (remaining s))")
     (auto simp: shift_after_peek intro: shift_pair_shorter)

text \<open>
  The third loop, run only for a two-way report: the granules the catalog still holds are
  only in the catalog. Short name and version are read from \<open>nextCmrItem\<close>, the item the
  first loop peeked last, not from the item shifted; were there none, reading it would be a
  \<open>TypeError\<close>.
\<close>

function drainCmrGranules ::
  "granuleInCmr option \<Rightarrow> granuleInCmr queue \<Rightarrow> (string \<times> string \<times> string) list
     \<Rightarrow> thrown + (string \<times> string \<times> string) list" where
  "drainCmrGranules nextCmrItem cmrGranulesIterator acc =
     (case fst (peek cmrGranulesIterator) of
        None \<Rightarrow> Inr acc
      | Some _ \<Rightarrow>
         (case shift (snd (peek cmrGranulesIterator)) of
            (None, q) \<Rightarrow> Inr acc
          | (Some cmrItem, q) \<Rightarrow>
              (case nextCmrItem of
                 None \<Rightarrow> Inl (TypeError ''Cannot read properties of undefined (reading 'umm')'')
               | Some n \<Rightarrow>
                   drainCmrGranules nextCmrItem q
                     (acc @ [(GranuleUR cmrItem, ShortName n, Version n)]))))"
  by pat_completeness auto
termination
  by (relation "measure (\<lambda>(n, s, a). length (remaining s))")
     (auto simp: shift_after_peek intro: shift_pair_shorter)

declare mergeGranules.simps [simp del] drainEsGranules.simps [simp del]
  drainCmrGranules.simps [simp del]

definition emptyCmrReport :: "('a, 'b) cmrReport" where
  "emptyCmrReport = \<lparr>okCount = 0, onlyInCumulus = [], onlyInCmr = []\<rparr>"

definition reconciliationReportForGranules ::
  "((string \<rightharpoonup> string) \<Rightarrow> granuleFile \<Rightarrow> string \<Rightarrow> string option) \<Rightarrow> (string \<Rightarrow> string \<Rightarrow> string)
     \<Rightarrow> string \<Rightarrow> bucketsConfig \<Rightarrow> (string \<rightharpoonup> json) \<Rightarrow> esGranule queue \<Rightarrow> granuleInCmr queue
     \<Rightarrow> thrown + granuleReports" where
  "reconciliationReportForGranules constructOnlineAccessUrl buildS3Uri collection bucketsConfig
       recReportParams esGranulesIterator cmrGranulesIterator =
     (let oneWay = isOneWayReport recReportParams
      in case mergeGranules constructOnlineAccessUrl buildS3Uri collection bucketsConfig oneWay
                esGranulesIterator cmrGranulesIterator
                \<lparr>granulesReport = emptyCmrReport, filesReport = emptyCmrReport\<rparr> of
           (esq, cmrq, nextCmrItem, st) \<Rightarrow>
             (let st1 = st\<lparr>granulesReport := (granulesReport st)
                            \<lparr>onlyInCumulus :=
                               drainEsGranules collection esq (onlyInCumulus (granulesReport st))\<rparr>\<rparr>
              in if \<not> oneWay then
                   (case drainCmrGranules nextCmrItem cmrq (onlyInCmr (granulesReport st1)) of
                      Inl e \<Rightarrow> Inl e
                    | Inr only \<Rightarrow>
                        Inr (st1\<lparr>granulesReport := (granulesReport st1)\<lparr>onlyInCmr := only\<rparr>\<rparr>))
                 else Inr st1))"

subsection \<open>One-way reports\<close>

lemma mergeCollections_oneWay:
  "collectionsOnlyInCmr (snd (snd (mergeCollections True es cmr r))) = collectionsOnlyInCmr r"
  by (induction "True" es cmr r rule: mergeCollections.induct) simp_all

lemma mergeGranules_oneWay:
  "oneWay \<Longrightarrow>
   onlyInCmr (granulesReport (snd (snd (snd (mergeGranules cau f c cfg oneWay esq cmrq st)))))
     = onlyInCmr (granulesReport st)"
proof (induction cau f c cfg oneWay esq cmrq st rule: mergeGranules.induct)
  case (1 cau f c cfg oneWay esq cmrq st)
  note IH = "1.IH" and ow = "1.prems"
  show ?case
  proof (cases "fst (peek esq)")
    case None
    then show ?thesis by (subst mergeGranules.simps) simp
  next
    case d: (Some d)
    show ?thesis
    proof (cases "fst (peek cmrq)")
      case None
      with d show ?thesis by (subst mergeGranules.simps) simp
    next
      case m: (Some m)
      consider (lt) "granuleId d < GranuleUR m"
        | (gt) "\<not> granuleId d < GranuleUR m" "granuleId d > GranuleUR m"
        | (eq) "\<not> granuleId d < GranuleUR m" "\<not> granuleId d > GranuleUR m"
        by blast
      then show ?thesis
      proof cases
        case lt
        from IH(1) [OF d m refl refl lt ow] d m lt show ?thesis
          by (subst mergeGranules.simps) (simp add: Let_def)
      next
        case gt
        from IH(2) [OF d m refl refl gt ow] d m gt ow show ?thesis
          by (subst mergeGranules.simps) (simp add: Let_def)
      next
        case eq
        from IH(3) [OF d m refl refl eq refl refl refl ow] d m eq show ?thesis
          by (subst mergeGranules.simps) (simp add: Let_def)
      qed
    qed
  qed
qed

lemma reconciliationReportForCollections_oneWay:
  "isOneWayReport p \<Longrightarrow>
   collectionsOnlyInCmr (reconciliationReportForCollections p cmr es) = []"
  using mergeCollections_oneWay [of es cmr
      "\<lparr>okCollections = [], collectionsOnlyInCumulus = [], collectionsOnlyInCmr = []\<rparr>"]
  by (auto simp: reconciliationReportForCollections_def Let_def split: prod.splits)

lemma reconciliationReportForGranules_oneWay:
  "isOneWayReport p \<Longrightarrow>
   \<exists>r. reconciliationReportForGranules cau f c cfg p esq cmrq = Inr r
      \<and> onlyInCmr (granulesReport r) = []"
  using mergeGranules_oneWay [of True cau f c cfg esq cmrq
      "\<lparr>granulesReport = emptyCmrReport, filesReport = emptyCmrReport\<rparr>"]
  by (auto simp: reconciliationReportForGranules_def Let_def emptyCmrReport_def split: prod.splits)

text \<open>
  Claim C2. When the report parameters give a start or an end timestamp (a truthy one), the
  report is one-way: whatever the catalog and the index hold, the collection comparison
  returns an empty \<open>onlyInCmr\<close>, and the granule comparison of a collection returns, with an
  empty \<open>onlyInCmr\<close> in its granule report.
\<close>

theorem one_way_nothing_only_in_cmr:
  assumes "truthy (recReportParams ''startTimestamp'') \<or> truthy (recReportParams ''endTimestamp'')"
  shows "isOneWayReport recReportParams
       \<and> collectionsOnlyInCmr
            (reconciliationReportForCollections recReportParams cmrCollectionIds esCollectionIds) = []
       \<and> (\<exists>r. reconciliationReportForGranules constructOnlineAccessUrl buildS3Uri collection
                 bucketsConfig recReportParams esGranulesIterator cmrGranulesIterator = Inr r
              \<and> onlyInCmr (granulesReport r) = [])"
proof -
  from assms have o: "isOneWayReport recReportParams"
    by (simp add: isOneWayReport_def)
  from o reconciliationReportForCollections_oneWay [OF o]
    reconciliationReportForGranules_oneWay [OF o]
  show ?thesis by blast
qed

theorem one_way_nothing_only_in_cmr_witness:
  "reconciliationReportForCollections [''startTimestamp'' \<mapsto> JStr ''2020-01-01T00:00:00.000Z'']
       [''A___1'', ''B___1''] [''A___1'']
     = \<lparr>okCollections = [''A___1''], collectionsOnlyInCumulus = [], collectionsOnlyInCmr = []\<rparr>
   \<and> (\<exists>r. reconciliationReportForGranules exampleAccessUrl (\<lambda>b k. ''s3://'' @ b @ ''/'' @ k)
             ''A___1'' exampleBuckets [''startTimestamp'' \<mapsto> JStr ''2020-01-01T00:00:00.000Z'']
             (Queue [] [[\<lparr>granuleId = ''g1'', files = []\<rparr>]])
             (Queue [] [[\<lparr>GranuleUR = ''g2'', ShortName = ''A'', Version = ''1'', RelatedUrls = []\<rparr>]])
           = Inr r
         \<and> onlyInCmr (granulesReport r) = [])"
proof -
  have h: "truthy ([''startTimestamp'' \<mapsto> JStr ''2020-01-01T00:00:00.000Z''] ''startTimestamp'')
         \<or> truthy ([''startTimestamp'' \<mapsto> JStr ''2020-01-01T00:00:00.000Z''] ''endTimestamp'')"
    by simp
  have c: "okCollections (reconciliationReportForCollections
              [''startTimestamp'' \<mapsto> JStr ''2020-01-01T00:00:00.000Z'']
              [''A___1'', ''B___1''] [''A___1'']) = [''A___1'']"
      "collectionsOnlyInCumulus (reconciliationReportForCollections
              [''startTimestamp'' \<mapsto> JStr ''2020-01-01T00:00:00.000Z'']
              [''A___1'', ''B___1''] [''A___1'']) = []"
    by (simp_all add: reconciliationReportForCollections_def isOneWayReport_def)
  note t = one_way_nothing_only_in_cmr
      [where recReportParams = "[''startTimestamp'' \<mapsto> JStr ''2020-01-01T00:00:00.000Z'']", OF h]
  from t [of "[''A___1'', ''B___1'']" "[''A___1'']"] c
  have 1: "reconciliationReportForCollections [''startTimestamp'' \<mapsto> JStr ''2020-01-01T00:00:00.000Z'']
       [''A___1'', ''B___1''] [''A___1'']
     = \<lparr>okCollections = [''A___1''], collectionsOnlyInCumulus = [], collectionsOnlyInCmr = []\<rparr>"
    by (cases "reconciliationReportForCollections
              [''startTimestamp'' \<mapsto> JStr ''2020-01-01T00:00:00.000Z'']
              [''A___1'', ''B___1''] [''A___1'']") simp
  from 1 t show ?thesis by blast
qed

section \<open>The report request: normalisation, tracking record, report document\<close>

text \<open>
  What the handler uses from outside this file, gathered in one record: \<open>new Date(v)\<close> and
  \<open>toISOString\<close> (\<open>parseDate\<close>, nothing for an invalid date), the two environment variables,
  the conversion of a value to text in a template literal (\<open>toText\<close>) and by
  \<open>JSON.stringify\<close>, the generated report name (\<open>camelCase\<close> of the report type and the
  formatted start time), the clock read when the request is taken up (\<open>utcNow\<close>) and when
  the document is completed (\<open>utcNowAtEnd\<close>), \<open>buildS3Uri\<close>, \<open>initialReportHeader\<close>, what
  \<open>createReconciliationReport\<close> does before it writes anything (\<open>fetchConfiguration\<close>: the
  two configuration objects are fetched and the bucket configuration is built, which may
  fail), the comparisons that it awaits between its two writes of the document (they fail
  with an error or give the sub-reports to merge into the document), and
  \<open>createInternalReconciliationReport\<close> (\<open>internalReport\<close>: it fails or succeeds, and
  writes the documents listed). The two limits that \<open>handler\<close> sets in the environment
  are read by the catalog client only and are left out.

  The state is the tracking-record store and the stored objects, with a trace of every
  write in order; \<open>Compared\<close> marks in the trace the moment the comparisons of
  \<open>createReconciliationReport\<close> run.
\<close>

record jsError =
  message :: string
  cause :: string

datatype effect =
    RecordWritten json "string \<rightharpoonup> json"
  | ObjectPut "json option" "json option" "string \<rightharpoonup> json"
  | Compared

record world =
  reportRecords :: "json \<rightharpoonup> (string \<rightharpoonup> json)"
  s3Objects :: "json option \<times> json option \<rightharpoonup> (string \<rightharpoonup> json)"
  trace :: "effect list"

record runtime =
  parseDate :: "json \<Rightarrow> string option"
  envSystemBucket :: "string option"
  envStackName :: "string option"
  toText :: "json option \<Rightarrow> string"
  stringify :: "json option \<Rightarrow> string"
  generatedName :: "json option \<Rightarrow> string \<Rightarrow> string"
  utcNow :: string
  utcNowAtEnd :: string
  buildUri :: "json option \<Rightarrow> string \<Rightarrow> string"
  initialReportHeader :: "(string \<rightharpoonup> json) \<Rightarrow> (string \<rightharpoonup> json)"
  fetchConfiguration :: "(string \<rightharpoonup> json) \<Rightarrow> jsError option"
  comparisons :: "(string \<rightharpoonup> json) \<Rightarrow> jsError + (string \<rightharpoonup> json)"
  internalReport ::
    "(string \<rightharpoonup> json)
       \<Rightarrow> jsError option \<times> (json option \<times> json option \<times> (string \<rightharpoonup> json)) list"

text \<open>\<open>isoTimestamp\<close>: a falsy input gives \<open>undefined\<close> without being parsed.\<close>

definition isoTimestamp :: "runtime \<Rightarrow> json option \<Rightarrow> thrown + json option" where
  "isoTimestamp rt dateable =
     (if truthy dateable then
        (case parseDate rt (the dateable) of
           None \<Rightarrow> Inl (TypeError (toText rt dateable @ '' is not a valid input for new Date().''))
         | Some isoString \<Rightarrow> Inr (Some (JStr isoString)))
      else Inr None)"

text \<open>\<open>a || b\<close> on values.\<close>

definition orElse :: "json option \<Rightarrow> json option \<Rightarrow> json option" where
  "orElse a b = (if truthy a then a else b)"

text \<open>
  \<open>String.prototype.toLowerCase\<close>, used only to compare the report type with
  \<open>granulenotfound\<close>: the letters \<open>A\<close> to \<open>Z\<close> are lowered, every other character is kept.
\<close>

definition toLowerCase :: "string \<Rightarrow> string" where
  "toLowerCase s =
     map (\<lambda>c. if CHR ''A'' \<le> c \<and> c \<le> CHR ''Z'' then char_of (of_char c + (32::nat)) else c) s"

text \<open>
  Modelled from the spec: \<open>removeNilProperties\<close> (from another package of the repository);
  properties that are \<open>null\<close> or \<open>undefined\<close> are dropped.
\<close>

definition removeNilProperties :: "(string \<rightharpoonup> json) \<Rightarrow> (string \<rightharpoonup> json)" where
  "removeNilProperties obj = (\<lambda>k. case obj k of Some JNull \<Rightarrow> None | v \<Rightarrow> v)"

text \<open>
  \<open>normalizeEvent\<close>. The two timestamps are converted first, in this order. A report type
  that is truthy and not a string has no \<open>toLowerCase\<close>, which is a \<open>TypeError\<close> of the
  language. Then a truthy \<open>collectionIds\<close> is refused, and a truthy \<open>collectionId\<close> is moved
  into \<open>collectionIds\<close>.
\<close>

definition normalizeEvent :: "runtime \<Rightarrow> (string \<rightharpoonup> json) \<Rightarrow> thrown + (string \<rightharpoonup> json)" where
  "normalizeEvent rt event =
     (let systemBucket = orElse (event ''systemBucket'') (map_option JStr (envSystemBucket rt));
          stackName = orElse (event ''stackName'') (map_option JStr (envStackName rt))
      in case isoTimestamp rt (event ''startTimestamp'') of
           Inl e \<Rightarrow> Inl e
         | Inr startTimestamp \<Rightarrow>
          (case isoTimestamp rt (event ''endTimestamp'') of
             Inl e \<Rightarrow> Inl e
           | Inr endTimestamp \<Rightarrow>
            (case orElse (event ''reportType'') (Some (JStr ''Inventory'')) of
               Some (JStr given) \<Rightarrow>
                 (let reportType = (if toLowerCase given = ''granulenotfound''
                                    then ''Granule Not Found'' else given);
                      anyCollectionIds = event ''collectionIds'';
                      collectionId = event ''collectionId'';
                      modifiedEvent = event(''collectionIds'' := None, ''collectionId'' := None)
                  in if truthy anyCollectionIds then
                       Inl (TypeError ''`collectionIds` is not a valid input key for a reconciliation report, use `collectionId` instead.'')
                     else
                       (case (if truthy collectionId then
                                (if reportType = ''Internal'' then
                                   (case collectionId of
                                      Some (JStr c) \<Rightarrow> Inr (event(''collectionIds'' \<mapsto> JArr [JStr c]))
                                    | _ \<Rightarrow> Inl (TypeError (stringify rt collectionId
                                                       @ '' is not valid input for an Internal report.'')))
                                 else
                                   (case collectionId of
                                      Some (JStr c) \<Rightarrow> Inr (modifiedEvent(''collectionIds'' \<mapsto> JArr [JStr c]))
                                    | _ \<Rightarrow> Inr (modifiedEvent(''collectionIds'' := collectionId))))
                              else Inr modifiedEvent) of
                          Inl e \<Rightarrow> Inl e
                        | Inr modified \<Rightarrow>
                            Inr (removeNilProperties
                                   (modified(''systemBucket'' := systemBucket,
                                             ''stackName'' := stackName,
                                             ''startTimestamp'' := startTimestamp,
                                             ''endTimestamp'' := endTimestamp,
                                             ''reportType'' \<mapsto> JStr reportType)))))
             | _ \<Rightarrow> Inl (TypeError ''reportType.toLowerCase is not a function''))))"

text \<open>
  Modelled from the spec: the tracking-record store (class \<open>ReconciliationReport\<close>, from
  another directory of the repository), a store with create and update by key. A record is
  an object; \<open>create\<close> stores it under its name, \<open>update\<close> merges the given properties into
  the record of that name. Every write is appended to the trace with the properties
  written. Writes do not fail.
\<close>

definition createRecord :: "json \<Rightarrow> (string \<rightharpoonup> json) \<Rightarrow> world \<Rightarrow> world" where
  "createRecord recordName props w =
     w\<lparr>reportRecords := (reportRecords w)(recordName \<mapsto> props),
       trace := trace w @ [RecordWritten recordName props]\<rparr>"

definition updateRecord :: "json \<Rightarrow> (string \<rightharpoonup> json) \<Rightarrow> world \<Rightarrow> world" where
  "updateRecord recordName updates w =
     w\<lparr>reportRecords := (reportRecords w)(recordName \<mapsto>
           (case reportRecords w recordName of None \<Rightarrow> updates | Some r \<Rightarrow> r ++ updates)),
       trace := trace w @ [RecordWritten recordName updates]\<rparr>"

text \<open>\<open>s3().putObject\<close> of the report document, kept as the object that is serialised.\<close>

definition putObject ::
  "json option \<Rightarrow> json option \<Rightarrow> (string \<rightharpoonup> json) \<Rightarrow> world \<Rightarrow> world" where
  "putObject Bucket objectKey body w =
     w\<lparr>s3Objects := (s3Objects w)((Bucket, objectKey) \<mapsto> body),
       trace := trace w @ [ObjectPut Bucket objectKey body]\<rparr>"

definition reportFormatCumulusCmr :: json where
  "reportFormatCumulusCmr =
     JObj [(''okCount'', JNum 0), (''onlyInCumulus'', JArr []), (''onlyInCmr'', JArr [])]"

definition filesInCumulusInitial :: json where
  "filesInCumulusInitial =
     JObj [(''okCount'', JNum 0), (''okCountByGranule'', JObj []), (''onlyInS3'', JArr []),
           (''onlyInDynamoDb'', JArr [])]"

text \<open>
  \<open>createReconciliationReport\<close>: the configuration is fetched; the initial document (the
  header and four empty sub-reports) is written; the comparisons run; their sub-reports are
  merged into the document, which gets its end time and the status \<open>SUCCESS\<close> and is
  written again. An error leaves the function where it occurs.
\<close>

definition createReconciliationReport :: "runtime \<Rightarrow> (string \<rightharpoonup> json) \<Rightarrow> world \<Rightarrow> jsError option \<times> world" where
  "createReconciliationReport rt recReportParams w =
     (let systemBucket = recReportParams ''systemBucket'';
          reportKey = recReportParams ''reportKey''
      in case fetchConfiguration rt recReportParams of
           Some e \<Rightarrow> (Some e, w)
         | None \<Rightarrow>
            (let report = (initialReportHeader rt recReportParams)
                            (''filesInCumulus'' \<mapsto> filesInCumulusInitial,
                             ''collectionsInCumulusCmr'' \<mapsto> reportFormatCumulusCmr,
                             ''granulesInCumulusCmr'' \<mapsto> reportFormatCumulusCmr,
                             ''filesInCumulusCmr'' \<mapsto> reportFormatCumulusCmr);
                 w1 = putObject systemBucket reportKey report w;
                 w2 = w1\<lparr>trace := trace w1 @ [Compared]\<rparr>
             in case comparisons rt recReportParams of
                  Inl e \<Rightarrow> (Some e, w2)
                | Inr subReports \<Rightarrow>
                    (None, putObject systemBucket reportKey
                             ((report ++ subReports)(''createEndTime'' \<mapsto> JStr (utcNowAtEnd rt),
                                                     ''status'' \<mapsto> JStr ''SUCCESS'')) w2)))"

text \<open>The internal report, with the documents it writes put in place.\<close>

definition createInternalReconciliationReport ::
  "runtime \<Rightarrow> (string \<rightharpoonup> json) \<Rightarrow> world \<Rightarrow> jsError option \<times> world" where
  "createInternalReconciliationReport rt recReportParams w =
     (case internalReport rt recReportParams of
        (failure, documents) \<Rightarrow>
          (failure, foldl (\<lambda>w' (b, k, body). putObject b k body w') w documents))"

text \<open>
  \<open>processRequest\<close>: the tracking record is created with status \<open>Pending\<close>; the report is
  made inside \<open>try\<close>; the record is updated to \<open>Generated\<close>, or in \<open>catch\<close> to \<open>Failed\<close> with
  the error; the record is read back and returned.
\<close>

definition reportRecordName :: "runtime \<Rightarrow> (string \<rightharpoonup> json) \<Rightarrow> json" where
  "reportRecordName rt params =
     (if truthy (params ''reportName'') then the (params ''reportName'')
      else JStr (generatedName rt (params ''reportType'') (utcNow rt)))"

definition reportKey :: "runtime \<Rightarrow> (string \<rightharpoonup> json) \<Rightarrow> string" where
  "reportKey rt params =
     toText rt (params ''stackName'') @ ''/reconciliation-reports/''
       @ toText rt (Some (reportRecordName rt params)) @ ''.json''"

definition reportRecord :: "runtime \<Rightarrow> (string \<rightharpoonup> json) \<Rightarrow> (string \<rightharpoonup> json)" where
  "reportRecord rt params =
     (Map.empty(''name'' \<mapsto> reportRecordName rt params,
                ''status'' \<mapsto> JStr ''Pending'',
                ''location'' \<mapsto> JStr (buildUri rt (params ''systemBucket'') (reportKey rt params))))
       (''type'' := params ''reportType'')"

definition recReportParams :: "runtime \<Rightarrow> (string \<rightharpoonup> json) \<Rightarrow> (string \<rightharpoonup> json)" where
  "recReportParams rt params =
     params(''createStartTime'' \<mapsto> JStr (utcNow rt), ''reportKey'' \<mapsto> JStr (reportKey rt params))"

definition makeReport :: "runtime \<Rightarrow> (string \<rightharpoonup> json) \<Rightarrow> world \<Rightarrow> jsError option \<times> world" where
  "makeReport rt params w =
     (if params ''reportType'' = Some (JStr ''Internal'')
      then createInternalReconciliationReport rt (recReportParams rt params) w
      else createReconciliationReport rt (recReportParams rt params) w)"

definition processRequest :: "runtime \<Rightarrow> (string \<rightharpoonup> json) \<Rightarrow> world \<Rightarrow> (string \<rightharpoonup> json) option \<times> world" where
  "processRequest rt params w =
     (let w1 = createRecord (reportRecordName rt params) (reportRecord rt params) w;
          (failure, w2) = makeReport rt params w1;
          w3 = (case failure of
                  None \<Rightarrow>
                    updateRecord (reportRecordName rt params) [''status'' \<mapsto> JStr ''Generated''] w2
                | Some e \<Rightarrow>
                    updateRecord (reportRecordName rt params)
                      [''status'' \<mapsto> JStr ''Failed'',
                       ''error'' \<mapsto> JObj [(''Error'', JStr (message e)), (''Cause'', JStr (cause e))]] w2)
      in (reportRecords w3 (reportRecordName rt params), w3))"

text \<open>\<open>handler\<close>: an event that cannot be normalised never reaches \<open>processRequest\<close>.\<close>

definition handler ::
  "runtime \<Rightarrow> (string \<rightharpoonup> json) \<Rightarrow> world \<Rightarrow> (thrown + (string \<rightharpoonup> json) option) \<times> world" where
  "handler rt event w =
     (case normalizeEvent rt event of
        Inl e \<Rightarrow> (Inl e, w)
      | Inr reportParams \<Rightarrow>
          (case processRequest rt reportParams w of (r, w') \<Rightarrow> (Inr r, w')))"

subsection \<open>Effects of a run\<close>

fun isRecordWrite :: "effect \<Rightarrow> bool" where
  "isRecordWrite (RecordWritten recordName props) = True"
| "isRecordWrite (ObjectPut Bucket objectKey body) = False"
| "isRecordWrite Compared = False"

text \<open>The statuses written to the tracking record, and those written into report documents.\<close>

fun recordStatuses :: "effect list \<Rightarrow> json option list" where
  "recordStatuses [] = []"
| "recordStatuses (RecordWritten recordName props # es) = props ''status'' # recordStatuses es"
| "recordStatuses (e # es) = recordStatuses es"

fun documentStatuses :: "effect list \<Rightarrow> json option list" where
  "documentStatuses [] = []"
| "documentStatuses (ObjectPut Bucket objectKey body # es) = body ''status'' # documentStatuses es"
| "documentStatuses (e # es) = documentStatuses es"

definition emptyWorld :: world where
  "emptyWorld = \<lparr>reportRecords = Map.empty, s3Objects = Map.empty, trace = []\<rparr>"

text \<open>What making the report adds to the trace.\<close>

definition reportEffects :: "runtime \<Rightarrow> (string \<rightharpoonup> json) \<Rightarrow> effect list" where
  "reportEffects rt params = trace (snd (makeReport rt params emptyWorld))"

definition newEffects :: "world \<Rightarrow> world \<Rightarrow> effect list" where
  "newEffects w w' = drop (length (trace w)) (trace w')"

text \<open>An example environment: dates are the strings that start with a digit.\<close>

definition exampleRuntime :: runtime where
  "exampleRuntime =
     \<lparr>parseDate = (\<lambda>v. case v of
                          JStr (c # cs) \<Rightarrow> if CHR ''0'' \<le> c \<and> c \<le> CHR ''9'' then Some (c # cs @ ''T00:00:00.000Z'') else None
                        | _ \<Rightarrow> None),
      envSystemBucket = Some ''system'',
      envStackName = Some ''stack'',
      toText = (\<lambda>v. case v of Some (JStr s) \<Rightarrow> s | _ \<Rightarrow> ''undefined''),
      stringify = (\<lambda>v. case v of Some (JStr s) \<Rightarrow> s | _ \<Rightarrow> ''null''),
      generatedName = (\<lambda>reportType time. ''inventoryReport-'' @ time),
      utcNow = ''20200101T000000000'',
      utcNowAtEnd = ''2020-01-01T00:05:00.000Z'',
      buildUri = (\<lambda>b k. ''s3://'' @ (case b of Some (JStr s) \<Rightarrow> s | _ \<Rightarrow> ''undefined'')
                         @ ''/'' @ k),
      initialReportHeader = (\<lambda>p. [''reportType'' \<mapsto> JStr ''Inventory'', ''status'' \<mapsto> JStr ''Pending'']),
      fetchConfiguration = (\<lambda>p. None),
      comparisons = (\<lambda>p. if p ''fail'' = Some (JBool True)
                          then Inl \<lparr>message = ''CMR is down'', cause = ''timeout''\<rparr>
                          else Inr [''collectionsInCumulusCmr'' \<mapsto> reportFormatCumulusCmr]),
      internalReport = (\<lambda>p. (None, []))\<rparr>"

subsection \<open>What making the report can and cannot change\<close>

lemma putObjects_records:
  "reportRecords (foldl (\<lambda>w' (b, k, body). putObject b k body w') w documents) = reportRecords w"
  by (induction documents arbitrary: w) (auto simp: putObject_def)

lemma putObjects_trace:
  "trace (foldl (\<lambda>w' (b, k, body). putObject b k body w') w documents)
     = trace w @ map (\<lambda>(b, k, body). ObjectPut b k body) documents"
  by (induction documents arbitrary: w) (auto simp: putObject_def)

lemma internal_records:
  "reportRecords (snd (createInternalReconciliationReport rt p w)) = reportRecords w"
  by (simp add: createInternalReconciliationReport_def putObjects_records split: prod.splits)

lemma internal_trace:
  "trace (snd (createInternalReconciliationReport rt p w))
     = trace w @ trace (snd (createInternalReconciliationReport rt p emptyWorld))"
  by (simp add: createInternalReconciliationReport_def putObjects_trace emptyWorld_def
      split: prod.splits)

lemma internal_no_record:
  "\<forall>x \<in> set (trace (snd (createInternalReconciliationReport rt p emptyWorld))). \<not> isRecordWrite x"
  by (auto simp: createInternalReconciliationReport_def putObjects_trace emptyWorld_def
      split: prod.splits)

lemma internal_failure:
  "fst (createInternalReconciliationReport rt p w) = fst (createInternalReconciliationReport rt p w')"
  by (simp add: createInternalReconciliationReport_def split: prod.splits)

lemma report_records:
  "reportRecords (snd (createReconciliationReport rt p w)) = reportRecords w"
  by (simp add: createReconciliationReport_def putObject_def Let_def
      split: option.splits sum.splits)

lemma report_trace:
  "trace (snd (createReconciliationReport rt p w))
     = trace w @ trace (snd (createReconciliationReport rt p emptyWorld))"
  by (simp add: createReconciliationReport_def putObject_def Let_def emptyWorld_def
      split: option.splits sum.splits)

lemma report_no_record:
  "\<forall>x \<in> set (trace (snd (createReconciliationReport rt p emptyWorld))). \<not> isRecordWrite x"
  by (simp add: createReconciliationReport_def putObject_def Let_def emptyWorld_def
      split: option.splits sum.splits)

lemma report_failure:
  "fst (createReconciliationReport rt p w) = fst (createReconciliationReport rt p w')"
  by (simp add: createReconciliationReport_def Let_def split: option.splits sum.splits)

lemma makeReport_records: "reportRecords (snd (makeReport rt params w)) = reportRecords w"
  by (simp add: makeReport_def internal_records report_records)

lemma makeReport_failure: "fst (makeReport rt params w) = fst (makeReport rt params w')"
  using internal_failure [of rt _ w w'] report_failure [of rt _ w w']
  by (simp add: makeReport_def)

lemma makeReport_trace:
  "trace (snd (makeReport rt params w)) = trace w @ reportEffects rt params"
  using internal_trace [of rt _ w] report_trace [of rt _ w]
  by (simp add: makeReport_def reportEffects_def)

lemma reportEffects_no_record: "\<forall>x \<in> set (reportEffects rt params). \<not> isRecordWrite x"
  using internal_no_record [of rt] report_no_record [of rt]
  by (simp add: makeReport_def reportEffects_def)

lemma recordStatuses_append: "recordStatuses (xs @ ys) = recordStatuses xs @ recordStatuses ys"
  by (induction xs rule: recordStatuses.induct) auto

lemma recordStatuses_none: "\<forall>x \<in> set xs. \<not> isRecordWrite x \<Longrightarrow> recordStatuses xs = []"
  by (induction xs rule: recordStatuses.induct) auto

definition finalUpdate :: "jsError option \<Rightarrow> (string \<rightharpoonup> json)" where
  "finalUpdate failure =
     (case failure of
        None \<Rightarrow> [''status'' \<mapsto> JStr ''Generated'']
      | Some e \<Rightarrow>
          [''status'' \<mapsto> JStr ''Failed'',
           ''error'' \<mapsto> JObj [(''Error'', JStr (message e)), (''Cause'', JStr (cause e))]])"

lemma processRequest_world:
  "snd (processRequest rt params w) =
     updateRecord (reportRecordName rt params) (finalUpdate (fst (makeReport rt params w)))
       (snd (makeReport rt params
               (createRecord (reportRecordName rt params) (reportRecord rt params) w)))"
  using makeReport_failure [of rt params w
      "createRecord (reportRecordName rt params) (reportRecord rt params) w"]
  by (auto simp: processRequest_def finalUpdate_def Let_def split: prod.splits option.splits)

lemma processRequest_trace:
  "trace (snd (processRequest rt params w)) =
     trace w @ RecordWritten (reportRecordName rt params) (reportRecord rt params)
       # reportEffects rt params
       @ [RecordWritten (reportRecordName rt params) (finalUpdate (fst (makeReport rt params w)))]"
  by (simp add: processRequest_world updateRecord_def makeReport_trace createRecord_def)

lemma processRequest_record:
  "reportRecords (snd (processRequest rt params w)) (reportRecordName rt params)
     = Some (reportRecord rt params ++ finalUpdate (fst (makeReport rt params w)))"
  by (simp add: processRequest_world updateRecord_def makeReport_records createRecord_def)

lemma processRequest_result:
  "fst (processRequest rt params w)
     = reportRecords (snd (processRequest rt params w)) (reportRecordName rt params)"
  by (auto simp: processRequest_def Let_def split: prod.splits)

subsection \<open>The tracking record of a run\<close>

text \<open>
  Claim C7. In every run of \<open>processRequest\<close> the first write is the creation of the tracking
  record, with status \<open>Pending\<close>, its name, its type and its location. Everything that making
  the report does (the comparisons, the writes of the document) comes after it and writes no
  tracking record. The last write updates the record of that name: to \<open>Generated\<close> when
  making the report succeeded, to \<open>Failed\<close> with the message and the cause of the error when
  it failed. The record returned is the stored one; it keeps its name, type and location and
  its status is not \<open>Pending\<close>.
\<close>

theorem tracking_record_lifecycle:
  "(\<exists>final.
      trace (snd (processRequest rt params w)) =
        trace w @ RecordWritten (reportRecordName rt params) (reportRecord rt params)
          # reportEffects rt params @ [RecordWritten (reportRecordName rt params) final]
    \<and> (\<forall>x \<in> set (reportEffects rt params). \<not> isRecordWrite x)
    \<and> (\<forall>w'. trace (snd (makeReport rt params w')) = trace w' @ reportEffects rt params)
    \<and> reportRecord rt params ''status'' = Some (JStr ''Pending'')
    \<and> reportRecord rt params ''name'' = Some (reportRecordName rt params)
    \<and> reportRecord rt params ''type'' = params ''reportType''
    \<and> reportRecord rt params ''location'' =
          Some (JStr (buildUri rt (params ''systemBucket'') (reportKey rt params)))
    \<and> (fst (makeReport rt params w) = None \<longrightarrow> final = [''status'' \<mapsto> JStr ''Generated''])
    \<and> (\<forall>e. fst (makeReport rt params w) = Some e \<longrightarrow>
          final = [''status'' \<mapsto> JStr ''Failed'',
                   ''error'' \<mapsto> JObj [(''Error'', JStr (message e)), (''Cause'', JStr (cause e))]])
    \<and> (\<exists>r. fst (processRequest rt params w) = Some r
          \<and> reportRecords (snd (processRequest rt params w)) (reportRecordName rt params) = Some r
          \<and> r ''name'' = Some (reportRecordName rt params)
          \<and> r ''type'' = params ''reportType''
          \<and> r ''location'' = reportRecord rt params ''location''
          \<and> r ''status'' = final ''status''
          \<and> r ''error'' = final ''error''
          \<and> r ''status'' \<noteq> Some (JStr ''Pending'')))"
proof -
  let ?final = "finalUpdate (fst (makeReport rt params w))"
  let ?r = "reportRecord rt params ++ ?final"
  have st: "?final ''status'' = Some (JStr ''Generated'') \<or> ?final ''status'' = Some (JStr ''Failed'')"
    by (simp add: finalUpdate_def split: option.splits)
  have dom: "dom ?final \<subseteq> {''status'', ''error''}"
    by (auto simp: finalUpdate_def split: option.splits if_splits)
  have keep: "?r ''name'' = reportRecord rt params ''name''"
      "?r ''type'' = reportRecord rt params ''type''"
      "?r ''location'' = reportRecord rt params ''location''"
    using dom by (auto simp: map_add_def split: option.splits)
  have new: "?r ''status'' = ?final ''status''" "?r ''error'' = ?final ''error''"
    using st by (auto simp: map_add_def reportRecord_def split: option.splits)
  have rec: "reportRecord rt params ''status'' = Some (JStr ''Pending'')"
      "reportRecord rt params ''name'' = Some (reportRecordName rt params)"
      "reportRecord rt params ''type'' = params ''reportType''"
      "reportRecord rt params ''location'' =
          Some (JStr (buildUri rt (params ''systemBucket'') (reportKey rt params)))"
    by (simp_all add: reportRecord_def)
  have res: "fst (processRequest rt params w) = Some ?r"
      "reportRecords (snd (processRequest rt params w)) (reportRecordName rt params) = Some ?r"
    by (simp_all add: processRequest_result processRequest_record)
  have fin: "fst (makeReport rt params w) = None \<longrightarrow> ?final = [''status'' \<mapsto> JStr ''Generated'']"
      "\<forall>e. fst (makeReport rt params w) = Some e \<longrightarrow>
          ?final = [''status'' \<mapsto> JStr ''Failed'',
                   ''error'' \<mapsto> JObj [(''Error'', JStr (message e)), (''Cause'', JStr (cause e))]]"
    by (simp_all add: finalUpdate_def)
  have notp: "?r ''status'' \<noteq> Some (JStr ''Pending'')"
    using st new by auto
  have last: "\<exists>r. fst (processRequest rt params w) = Some r
          \<and> reportRecords (snd (processRequest rt params w)) (reportRecordName rt params) = Some r
          \<and> r ''name'' = Some (reportRecordName rt params)
          \<and> r ''type'' = params ''reportType''
          \<and> r ''location'' = reportRecord rt params ''location''
          \<and> r ''status'' = ?final ''status''
          \<and> r ''error'' = ?final ''error''
          \<and> r ''status'' \<noteq> Some (JStr ''Pending'')"
    using res keep new rec notp by (intro exI [of _ ?r]) simp
  show ?thesis
    using processRequest_trace [of rt params w] reportEffects_no_record [of rt params]
      makeReport_trace [of rt params] rec fin last
    by (intro exI [of _ ?final]) blast
qed

definition failingParams :: "string \<rightharpoonup> json" where
  "failingParams = [''reportType'' \<mapsto> JStr ''Inventory'', ''systemBucket'' \<mapsto> JStr ''system'',
                    ''stackName'' \<mapsto> JStr ''stack'', ''fail'' \<mapsto> JBool True]"

theorem tracking_record_lifecycle_witness:
  "\<exists>r. fst (processRequest exampleRuntime failingParams emptyWorld) = Some r
     \<and> r ''name'' = Some (JStr ''inventoryReport-20200101T000000000'')
     \<and> r ''type'' = Some (JStr ''Inventory'')
     \<and> r ''location'' = Some (JStr
           ''s3://system/stack/reconciliation-reports/inventoryReport-20200101T000000000.json'')
     \<and> r ''status'' = Some (JStr ''Failed'')
     \<and> r ''error'' = Some (JObj [(''Error'', JStr ''CMR is down''), (''Cause'', JStr ''timeout'')])"
proof -
  have f: "fst (makeReport exampleRuntime failingParams emptyWorld)
             = Some \<lparr>message = ''CMR is down'', cause = ''timeout''\<rparr>"
    by (simp add: makeReport_def createReconciliationReport_def exampleRuntime_def
        failingParams_def recReportParams_def Let_def)
  have n: "reportRecordName exampleRuntime failingParams = JStr ''inventoryReport-20200101T000000000''"
    by (simp add: reportRecordName_def exampleRuntime_def failingParams_def)
  have l: "reportRecord exampleRuntime failingParams ''location''
      = Some (JStr ''s3://system/stack/reconciliation-reports/inventoryReport-20200101T000000000.json'')"
    by (simp add: reportRecord_def reportKey_def n) (simp add: exampleRuntime_def failingParams_def)
  have t: "failingParams ''reportType'' = Some (JStr ''Inventory'')"
    by (simp add: failingParams_def)
  from tracking_record_lifecycle [of exampleRuntime failingParams emptyWorld]
  obtain final r where
    fin: "final = [''status'' \<mapsto> JStr ''Failed'',
                   ''error'' \<mapsto> JObj [(''Error'', JStr ''CMR is down''), (''Cause'', JStr ''timeout'')]]"
    and r: "fst (processRequest exampleRuntime failingParams emptyWorld) = Some r"
      "r ''name'' = Some (reportRecordName exampleRuntime failingParams)"
      "r ''type'' = failingParams ''reportType''"
      "r ''location'' = reportRecord exampleRuntime failingParams ''location''"
      "r ''status'' = final ''status''" "r ''error'' = final ''error''"
    unfolding f by auto
  then show ?thesis
    by (intro exI [of _ r]) (simp add: n t l)
qed

subsection \<open>Statuses written\<close>

lemma newEffects_append: "trace w' = trace w @ xs \<Longrightarrow> newEffects w w' = xs"
  by (simp add: newEffects_def)

lemma report_documentStatuses:
  "documentStatuses (trace (snd (createReconciliationReport rt p emptyWorld))) =
     (case fetchConfiguration rt p of
        Some e \<Rightarrow> []
      | None \<Rightarrow>
          (case comparisons rt p of
             Inl e \<Rightarrow> [initialReportHeader rt p ''status'']
           | Inr subReports \<Rightarrow> [initialReportHeader rt p ''status'', Some (JStr ''SUCCESS'')]))"
  by (simp add: createReconciliationReport_def putObject_def Let_def emptyWorld_def
      split: option.splits sum.splits)

text \<open>
  Claim C8, as the code has it. \<open>createReconciliationReport\<close> writes the report document at
  most twice. The initial write carries the status that \<open>initialReportHeader\<close> gives the
  document. The final write is made only when the configuration was fetched and the
  comparisons succeeded, and carries the status \<open>SUCCESS\<close>. The statuses \<open>Pending\<close>,
  \<open>Generated\<close> and \<open>Failed\<close> are those of the tracking record: \<open>processRequest\<close> writes
  \<open>Pending\<close>, then \<open>Generated\<close> or \<open>Failed\<close>.
\<close>

theorem document_statuses:
  "documentStatuses (newEffects w (snd (createReconciliationReport rt p w))) =
     (case fetchConfiguration rt p of
        Some e \<Rightarrow> []
      | None \<Rightarrow>
          (case comparisons rt p of
             Inl e \<Rightarrow> [initialReportHeader rt p ''status'']
           | Inr subReports \<Rightarrow> [initialReportHeader rt p ''status'', Some (JStr ''SUCCESS'')]))
   \<and> recordStatuses (newEffects w (snd (processRequest rt params w))) =
       [Some (JStr ''Pending''),
        Some (JStr (case fst (makeReport rt params w) of
                      None \<Rightarrow> ''Generated'' | Some e \<Rightarrow> ''Failed''))]"
proof -
  have "newEffects w (snd (createReconciliationReport rt p w))
          = trace (snd (createReconciliationReport rt p emptyWorld))"
    using report_trace [of rt p w] by (rule newEffects_append)
  then have a: "documentStatuses (newEffects w (snd (createReconciliationReport rt p w))) =
     (case fetchConfiguration rt p of
        Some e \<Rightarrow> []
      | None \<Rightarrow>
          (case comparisons rt p of
             Inl e \<Rightarrow> [initialReportHeader rt p ''status'']
           | Inr subReports \<Rightarrow> [initialReportHeader rt p ''status'', Some (JStr ''SUCCESS'')]))"
    by (simp only: report_documentStatuses)
  have "newEffects w (snd (processRequest rt params w)) =
       RecordWritten (reportRecordName rt params) (reportRecord rt params)
       # reportEffects rt params
       @ [RecordWritten (reportRecordName rt params) (finalUpdate (fst (makeReport rt params w)))]"
    using processRequest_trace [of rt params w] by (rule newEffects_append)
  then have b: "recordStatuses (newEffects w (snd (processRequest rt params w))) =
       [Some (JStr ''Pending''),
        Some (JStr (case fst (makeReport rt params w) of
                      None \<Rightarrow> ''Generated'' | Some e \<Rightarrow> ''Failed''))]"
    using recordStatuses_none [OF reportEffects_no_record [of rt params]]
    by (simp add: recordStatuses_append reportRecord_def finalUpdate_def split: option.splits)
  from a b show ?thesis by (rule conjI)
qed

text \<open>
  Where the claim as stated fails: a run whose comparisons succeed. The final write of the
  document carries \<open>SUCCESS\<close>, which is none of \<open>Pending\<close>, \<open>Generated\<close>, \<open>Failed\<close>, whatever
  the header function gives the initial write (here \<open>Pending\<close>).
\<close>

theorem document_statuses_counterexample:
  "documentStatuses (trace (snd (createReconciliationReport exampleRuntime
       [''systemBucket'' \<mapsto> JStr ''system'', ''reportKey'' \<mapsto> JStr ''r.json''] emptyWorld)))
     = [Some (JStr ''Pending''), Some (JStr ''SUCCESS'')]
   \<and> JStr ''SUCCESS'' \<notin> {JStr ''Pending'', JStr ''Generated'', JStr ''Failed''}"
  by (simp add: createReconciliationReport_def putObject_def Let_def emptyWorld_def
      exampleRuntime_def)

subsection \<open>Refused input\<close>

lemma isoTimestamp_unparsable:
  "truthy v \<Longrightarrow> parseDate rt (the v) = None \<Longrightarrow> \<exists>m. isoTimestamp rt v = Inl (TypeError m)"
  by (simp add: isoTimestamp_def)

lemma isoTimestamp_cases:
  "(\<exists>m. isoTimestamp rt v = Inl (TypeError m)) \<or> (\<exists>t. isoTimestamp rt v = Inr t)"
  by (simp add: isoTimestamp_def split: option.splits)

lemma normalizeEvent_start:
  "isoTimestamp rt (event ''startTimestamp'') = Inl e \<Longrightarrow> normalizeEvent rt event = Inl e"
  by (simp add: normalizeEvent_def Let_def)

lemma normalizeEvent_end:
  "isoTimestamp rt (event ''startTimestamp'') = Inr s \<Longrightarrow>
   isoTimestamp rt (event ''endTimestamp'') = Inl e \<Longrightarrow> normalizeEvent rt event = Inl e"
  by (simp add: normalizeEvent_def Let_def)

lemma normalizeEvent_plural:
  "truthy (event ''collectionIds'') \<Longrightarrow>
   isoTimestamp rt (event ''startTimestamp'') = Inr s \<Longrightarrow>
   isoTimestamp rt (event ''endTimestamp'') = Inr e \<Longrightarrow>
   (\<exists>m. normalizeEvent rt event = Inl (TypeError m))
   \<and> (\<forall>t. orElse (event ''reportType'') (Some (JStr ''Inventory'')) = Some (JStr t) \<longrightarrow>
        normalizeEvent rt event = Inl (TypeError
          ''`collectionIds` is not a valid input key for a reconciliation report, use `collectionId` instead.''))"
  by (simp add: normalizeEvent_def Let_def split: option.splits json.splits)

lemma normalizeEvent_plural_throws:
  assumes "truthy (event ''collectionIds'')"
  shows "\<exists>m. normalizeEvent rt event = Inl (TypeError m)"
proof -
  consider m where "isoTimestamp rt (event ''startTimestamp'') = Inl (TypeError m)"
    | s m where "isoTimestamp rt (event ''startTimestamp'') = Inr s"
        "isoTimestamp rt (event ''endTimestamp'') = Inl (TypeError m)"
    | s e where "isoTimestamp rt (event ''startTimestamp'') = Inr s"
        "isoTimestamp rt (event ''endTimestamp'') = Inr e"
    using isoTimestamp_cases [of rt "event ''startTimestamp''"]
      isoTimestamp_cases [of rt "event ''endTimestamp''"] by blast
  then show ?thesis
  proof cases
    case 1 then show ?thesis by (simp add: normalizeEvent_start)
  next
    case 2 then show ?thesis by (simp add: normalizeEvent_end)
  next
    case 3 then show ?thesis using assms normalizeEvent_plural [of event rt s e] by blast
  qed
qed

lemma normalizeEvent_timestamp_throws:
  assumes "(truthy (event ''startTimestamp'') \<and> parseDate rt (the (event ''startTimestamp'')) = None)
         \<or> (truthy (event ''endTimestamp'') \<and> parseDate rt (the (event ''endTimestamp'')) = None)"
  shows "\<exists>m. normalizeEvent rt event = Inl (TypeError m)"
proof -
  consider m where "isoTimestamp rt (event ''startTimestamp'') = Inl (TypeError m)"
    | s where "isoTimestamp rt (event ''startTimestamp'') = Inr s"
    using isoTimestamp_cases [of rt "event ''startTimestamp''"] by blast
  then show ?thesis
  proof cases
    case 1 then show ?thesis by (simp add: normalizeEvent_start)
  next
    case 2
    with assms have "truthy (event ''endTimestamp'')"
        "parseDate rt (the (event ''endTimestamp'')) = None"
      using isoTimestamp_unparsable [of "event ''startTimestamp''" rt] by auto
    then obtain m where "isoTimestamp rt (event ''endTimestamp'') = Inl (TypeError m)"
      using isoTimestamp_unparsable by blast
    with 2 show ?thesis by (simp add: normalizeEvent_end)
  qed
qed

lemma handler_stops: "normalizeEvent rt event = Inl e \<Longrightarrow> handler rt event w = (Inl e, w)"
  by (simp add: handler_def)

text \<open>
  Claim C9, as the code has it. An event whose \<open>startTimestamp\<close> or \<open>endTimestamp\<close> is given
  (truthy) and is not parsable as a date, or which gives \<open>collectionIds\<close> (truthy), with
  \<open>collectionId\<close> or without, makes \<open>normalizeEvent\<close> throw a \<open>TypeError\<close>; the handler
  rejects with it and leaves the tracking records, the stored objects and the trace of
  writes as they were.
\<close>

theorem bad_input_stops_before_any_write:
  assumes "(truthy (event ''startTimestamp'') \<and> parseDate rt (the (event ''startTimestamp'')) = None)
         \<or> (truthy (event ''endTimestamp'') \<and> parseDate rt (the (event ''endTimestamp'')) = None)
         \<or> truthy (event ''collectionIds'')"
  shows "\<exists>m. normalizeEvent rt event = Inl (TypeError m)
            \<and> handler rt event w = (Inl (TypeError m), w)"
proof -
  have "\<exists>m. normalizeEvent rt event = Inl (TypeError m)"
    using assms normalizeEvent_timestamp_throws [of event rt]
      normalizeEvent_plural_throws [of event rt] by blast
  then show ?thesis using handler_stops by blast
qed

theorem bad_input_stops_before_any_write_witness:
  "handler exampleRuntime [''startTimestamp'' \<mapsto> JStr ''yesterday''] emptyWorld
     = (Inl (TypeError ''yesterday is not a valid input for new Date().''), emptyWorld)
   \<and> (\<exists>m. handler exampleRuntime
             [''collectionIds'' \<mapsto> JArr [JStr ''c1''], ''collectionId'' \<mapsto> JStr ''c1''] emptyWorld
           = (Inl (TypeError m), emptyWorld))"
proof -
  have a: "normalizeEvent exampleRuntime [''startTimestamp'' \<mapsto> JStr ''yesterday'']
             = Inl (TypeError ''yesterday is not a valid input for new Date().'')"
    by (simp add: normalizeEvent_def isoTimestamp_def exampleRuntime_def Let_def)
  have h1: "truthy ([''startTimestamp'' \<mapsto> JStr ''yesterday''] ''startTimestamp'')
      \<and> parseDate exampleRuntime (the ([''startTimestamp'' \<mapsto> JStr ''yesterday''] ''startTimestamp'')) = None"
    by (simp add: exampleRuntime_def)
  have h2: "truthy ([''collectionIds'' \<mapsto> JArr [JStr ''c1''], ''collectionId'' \<mapsto> JStr ''c1'']
              ''collectionIds'')"
    by simp
  from bad_input_stops_before_any_write [of "[''startTimestamp'' \<mapsto> JStr ''yesterday'']"
      exampleRuntime emptyWorld] h1 a
  have 1: "handler exampleRuntime [''startTimestamp'' \<mapsto> JStr ''yesterday''] emptyWorld
     = (Inl (TypeError ''yesterday is not a valid input for new Date().''), emptyWorld)"
    by auto
  from bad_input_stops_before_any_write
      [of "[''collectionIds'' \<mapsto> JArr [JStr ''c1''], ''collectionId'' \<mapsto> JStr ''c1'']"
       exampleRuntime emptyWorld] h2
  have 2: "\<exists>m. handler exampleRuntime
             [''collectionIds'' \<mapsto> JArr [JStr ''c1''], ''collectionId'' \<mapsto> JStr ''c1''] emptyWorld
           = (Inl (TypeError m), emptyWorld)"
    by blast
  from 1 2 show ?thesis by (rule conjI)
qed

text \<open>
  Where the claim as stated fails: a \<open>startTimestamp\<close> that is the empty string. It is not
  parsable as a date, but it is falsy, so \<open>isoTimestamp\<close> returns \<open>undefined\<close> without parsing
  it; normalisation succeeds and the run creates its tracking record.
\<close>

theorem bad_input_stops_before_any_write_counterexample:
  "parseDate exampleRuntime (JStr '''') = None
   \<and> normalizeEvent exampleRuntime [''startTimestamp'' \<mapsto> JStr ''''] =
       Inr [''systemBucket'' \<mapsto> JStr ''system'', ''stackName'' \<mapsto> JStr ''stack'',
            ''reportType'' \<mapsto> JStr ''Inventory'']
   \<and> (\<exists>r. fst (handler exampleRuntime [''startTimestamp'' \<mapsto> JStr ''''] emptyWorld) = Inr (Some r))
   \<and> reportRecords (snd (handler exampleRuntime [''startTimestamp'' \<mapsto> JStr ''''] emptyWorld))
        (JStr ''inventoryReport-20200101T000000000'') \<noteq> None"
proof -
  have n: "normalizeEvent exampleRuntime [''startTimestamp'' \<mapsto> JStr ''''] =
       Inr [''systemBucket'' \<mapsto> JStr ''system'', ''stackName'' \<mapsto> JStr ''stack'',
            ''reportType'' \<mapsto> JStr ''Inventory'']"
    by (auto simp: normalizeEvent_def isoTimestamp_def orElse_def removeNilProperties_def
        exampleRuntime_def Let_def toLowerCase_def fun_eq_iff)
  have m: "reportRecordName exampleRuntime
             [''systemBucket'' \<mapsto> JStr ''system'', ''stackName'' \<mapsto> JStr ''stack'',
              ''reportType'' \<mapsto> JStr ''Inventory''] = JStr ''inventoryReport-20200101T000000000''"
    by (simp add: reportRecordName_def exampleRuntime_def)
  have h: "handler exampleRuntime [''startTimestamp'' \<mapsto> JStr ''''] emptyWorld =
      (Inr (fst (processRequest exampleRuntime
             [''systemBucket'' \<mapsto> JStr ''system'', ''stackName'' \<mapsto> JStr ''stack'',
              ''reportType'' \<mapsto> JStr ''Inventory''] emptyWorld)),
       snd (processRequest exampleRuntime
             [''systemBucket'' \<mapsto> JStr ''system'', ''stackName'' \<mapsto> JStr ''stack'',
              ''reportType'' \<mapsto> JStr ''Inventory''] emptyWorld))"
    by (simp add: handler_def n split: prod.splits)
  show ?thesis
    using processRequest_record [of exampleRuntime
             "[''systemBucket'' \<mapsto> JStr ''system'', ''stackName'' \<mapsto> JStr ''stack'',
              ''reportType'' \<mapsto> JStr ''Inventory'']" emptyWorld]
    by (simp add: n h processRequest_result m) (simp add: exampleRuntime_def)
qed

text \<open>
  Claim C10, as the code has it. An event that gives \<open>collectionIds\<close> a truthy value (every
  array is one, the empty array too) is refused with a \<open>TypeError\<close>, whether or not it
  gives \<open>collectionId\<close>. When the two timestamps convert and the report type is a string
  or is left out, the error is the one that names \<open>collectionIds\<close>; otherwise an earlier
  \<open>TypeError\<close> is thrown.
\<close>

theorem plural_key_refused:
  assumes "truthy (event ''collectionIds'')"
  shows "(\<exists>m. normalizeEvent rt event = Inl (TypeError m))
       \<and> (\<forall>s e t. isoTimestamp rt (event ''startTimestamp'') = Inr s
            \<and> isoTimestamp rt (event ''endTimestamp'') = Inr e
            \<and> orElse (event ''reportType'') (Some (JStr ''Inventory'')) = Some (JStr t)
          \<longrightarrow> normalizeEvent rt event = Inl (TypeError
          ''`collectionIds` is not a valid input key for a reconciliation report, use `collectionId` instead.''))"
proof -
  have a: "\<exists>m. normalizeEvent rt event = Inl (TypeError m)"
    using assms by (rule normalizeEvent_plural_throws)
  have b: "isoTimestamp rt (event ''startTimestamp'') = Inr s \<Longrightarrow>
           isoTimestamp rt (event ''endTimestamp'') = Inr e \<Longrightarrow>
           orElse (event ''reportType'') (Some (JStr ''Inventory'')) = Some (JStr t) \<Longrightarrow>
           normalizeEvent rt event = Inl (TypeError
          ''`collectionIds` is not a valid input key for a reconciliation report, use `collectionId` instead.'')"
    for s e t
    using assms normalizeEvent_plural [of event rt s e] by blast
  from a b show ?thesis by blast
qed

theorem plural_key_refused_witness:
  "normalizeEvent exampleRuntime [''collectionIds'' \<mapsto> JArr []] = Inl (TypeError
     ''`collectionIds` is not a valid input key for a reconciliation report, use `collectionId` instead.'')"
proof -
  have h: "truthy ([''collectionIds'' \<mapsto> JArr []] ''collectionIds'')" by simp
  have s: "isoTimestamp exampleRuntime ([''collectionIds'' \<mapsto> JArr []] ''startTimestamp'') = Inr None"
      "isoTimestamp exampleRuntime ([''collectionIds'' \<mapsto> JArr []] ''endTimestamp'') = Inr None"
      "orElse ([''collectionIds'' \<mapsto> JArr []] ''reportType'') (Some (JStr ''Inventory''))
         = Some (JStr ''Inventory'')"
    by (simp_all add: isoTimestamp_def orElse_def)
  from plural_key_refused [where event = "[''collectionIds'' \<mapsto> JArr []]" and rt = exampleRuntime]
    h s show ?thesis by blast
qed

text \<open>
  Where the claim as stated fails: \<open>collectionIds\<close> given with a falsy value, here the empty
  string and \<open>false\<close>. The key is defined, no \<open>collectionId\<close> is given, and normalisation
  succeeds; the key is dropped from the normalised parameters.
\<close>

theorem plural_key_refused_counterexample:
  "normalizeEvent exampleRuntime [''collectionIds'' \<mapsto> JStr ''''] =
     Inr [''systemBucket'' \<mapsto> JStr ''system'', ''stackName'' \<mapsto> JStr ''stack'',
          ''reportType'' \<mapsto> JStr ''Inventory'']
   \<and> normalizeEvent exampleRuntime [''collectionIds'' \<mapsto> JBool False] =
     Inr [''systemBucket'' \<mapsto> JStr ''system'', ''stackName'' \<mapsto> JStr ''stack'',
          ''reportType'' \<mapsto> JStr ''Inventory'']"
  by (auto simp: normalizeEvent_def isoTimestamp_def orElse_def removeNilProperties_def
      exampleRuntime_def Let_def toLowerCase_def fun_eq_iff)

end
